theory Spec2Isabelle
  imports Main "HOL-Library.Sublist"
begin

section \<open>Python strings\<close>

text \<open>
  A Python \<open>str\<close> is modelled as a \<open>string\<close>: a list of characters, each one a code
  point in the range U+0000 .. U+00FF. \<open>len\<close> is \<open>length\<close>, \<open>+\<close> is \<open>@\<close>,
  \<open>s.startswith(p)\<close> is \<open>prefix p s\<close> and \<open>p in s\<close> is \<open>sublist p s\<close>.
\<close>

definition NL :: char where
  "NL = CHR 0x0A"

definition TAB :: char where
  "TAB = CHR 0x09"

definition SP :: char where
  "SP = CHR 0x20"

text \<open>\<open>str.isspace\<close> on one character: the code points below U+0100 that Python counts
  as whitespace.\<close>

definition isspace :: "char \<Rightarrow> bool" where
  "isspace c \<longleftrightarrow> c \<in> set [CHR 0x09, CHR 0x0A, CHR 0x0B, CHR 0x0C, CHR 0x0D,
     CHR 0x1C, CHR 0x1D, CHR 0x1E, CHR 0x1F, CHR 0x20, CHR 0x85, CHR 0xA0]"

text \<open>\<open>s.lstrip()\<close>, \<open>s.rstrip()\<close> and \<open>s.strip()\<close> without arguments.\<close>

definition lstrip :: "string \<Rightarrow> string" where
  "lstrip s = dropWhile isspace s"

definition rstrip :: "string \<Rightarrow> string" where
  "rstrip s = rev (dropWhile isspace (rev s))"

definition strip :: "string \<Rightarrow> string" where
  "strip s = rstrip (lstrip s)"

section \<open>Text normalization\<close>

text \<open>
  \<^verbatim>\<open>
  def normalize_space(s: str) -> str:
      s = re.sub(r"[ \t]+", " ", s)
      s = re.sub(r"\n{3,}", "\n\n", s)
      return s.strip()
  \<close>
  \<open>re.sub\<close> scans from the left; at each position it takes the longest match of the
  pattern that starts there, writes the replacement and goes on after the match, and
  copies the character when there is no match.
\<close>

definition hspace :: "char \<Rightarrow> bool" where
  "hspace c \<longleftrightarrow> c = SP \<or> c = TAB"

text \<open>\<open>re.sub(r"[ \t]+", " ", s)\<close>\<close>

function sub_hspace :: "string \<Rightarrow> string" where
  "sub_hspace [] = []"
| "sub_hspace (c # cs) =
     (if hspace c then SP # sub_hspace (dropWhile hspace cs) else c # sub_hspace cs)"
  by pat_completeness auto
termination
  by (relation "measure length") (auto simp: less_Suc_eq_le length_dropWhile_le)

text \<open>\<open>re.sub(r"\n{3,}", "\n\n", s)\<close>\<close>

function sub_newlines :: "string \<Rightarrow> string" where
  "sub_newlines [] = []"
| "sub_newlines (c # cs) =
     (if c = NL \<and> take 2 cs = [NL, NL]
      then NL # NL # sub_newlines (dropWhile (\<lambda>x. x = NL) cs)
      else c # sub_newlines cs)"
  by pat_completeness auto
termination
  by (relation "measure length") (auto simp: less_Suc_eq_le length_dropWhile_le)

definition normalize_space :: "string \<Rightarrow> string" where
  "normalize_space s = strip (sub_newlines (sub_hspace s))"

text \<open>The shape of a string after each of the three steps.\<close>

fun hspace_collapsed :: "string \<Rightarrow> bool" where
  "hspace_collapsed [] = True"
| "hspace_collapsed [c] = (c \<noteq> TAB)"
| "hspace_collapsed (c # d # cs) =
     (c \<noteq> TAB \<and> \<not> (c = SP \<and> d = SP) \<and> hspace_collapsed (d # cs))"

fun newlines_collapsed :: "string \<Rightarrow> bool" where
  "newlines_collapsed [] = True"
| "newlines_collapsed [a] = True"
| "newlines_collapsed [a, b] = True"
| "newlines_collapsed (a # b # c # cs) =
     (\<not> (a = NL \<and> b = NL \<and> c = NL) \<and> newlines_collapsed (b # c # cs))"

definition stripped :: "string \<Rightarrow> bool" where
  "stripped s \<longleftrightarrow> s = [] \<or> (\<not> isspace (hd s) \<and> \<not> isspace (last s))"


text \<open>\<open>s.lower()\<close>: the upper-case letters below U+0100 are A-Z and U+00C0 .. U+00DE
  without the multiplication sign U+00D7; each maps to the code point 32 above it.\<close>

definition lower_char :: "char \<Rightarrow> char" where
  "lower_char c =
     (let n = (of_char c :: nat)
      in if (65 \<le> n \<and> n \<le> 90) \<or> (192 \<le> n \<and> n \<le> 222 \<and> n \<noteq> 215)
         then char_of (n + 32) else c)"

definition lower :: "string \<Rightarrow> string" where
  "lower s = map lower_char s"

text \<open>\<open>s.split(c)\<close> for a one-character separator: the list of the fields between the
  separators, never empty.\<close>

fun split :: "char \<Rightarrow> string \<Rightarrow> string list" where
  "split sep [] = [[]]"
| "split sep (c # cs) =
     (if c = sep then [] # split sep cs
      else (case split sep cs of [] \<Rightarrow> [[c]] | f # fs \<Rightarrow> (c # f) # fs))"

text \<open>\<open>s.split(c, 1)\<close> when \<open>c in s\<close>: the text before the first \<open>c\<close> and the text after
  it.\<close>

definition split1 :: "char \<Rightarrow> string \<Rightarrow> string \<times> string" where
  "split1 sep s = (takeWhile (\<lambda>c. c \<noteq> sep) s, drop 1 (dropWhile (\<lambda>c. c \<noteq> sep) s))"

text \<open>\<open>sep.join(xs)\<close>\<close>

fun join :: "string \<Rightarrow> string list \<Rightarrow> string" where
  "join sep [] = []"
| "join sep [x] = x"
| "join sep (x # y # ys) = x @ sep @ join sep (y # ys)"

section \<open>Exceptions\<close>

text \<open>
  The handlers of \<open>main\<close> tell three classes apart: \<open>requests.exceptions.HTTPError\<close>
  (with the status code of its response and its message), \<open>requests.exceptions.Timeout\<close>,
  and every other \<open>Exception\<close> (with the name of its type and its message).
\<close>

datatype exn =
    HTTPError nat string
  | Timeout string
  | Other string string

definition RuntimeError :: "string \<Rightarrow> exn" where
  "RuntimeError msg = Other ''RuntimeError'' msg"

definition ValueError :: "string \<Rightarrow> exn" where
  "ValueError msg = Other ''ValueError'' msg"

section \<open>The document tree of the HTML parser\<close>

text \<open>
  What \<open>BeautifulSoup(html_text, "html.parser")\<close> returns: a tree of tags with their
  attributes, text strings and strings that are no text (comments, declarations). The
  root is a tag named \<open>[document]\<close>. The parser keeps each attribute once and lower-cases
  tag and attribute names. An attribute value is kept here as the string of the source;
  the parser's list of the whitespace-separated tokens of \<open>rel\<close> is recomputed where the
  code searches by \<open>rel\<close>.
\<close>

datatype node =
    Text string
  | Comment string
  | Element string "(string \<times> string) list" "node list"

section \<open>The environment of one run\<close>

text \<open>A response of \<open>requests.get(..., stream=True)\<close>: what \<open>raise_for_status\<close> does,
  the headers read by the code or named by the specification, the chunks delivered by
  \<open>iter_content\<close> (bytes, one character each), the exception that ends the stream early
  if there is one, the declared encoding and the URL after redirects.\<close>

record response =
  status_error :: "exn option"
  content_type :: "string option"
  content_length :: "string option"
  body_chunks :: "string list"
  body_error :: "exn option"
  encoding :: "string option"
  resp_url :: string

text \<open>
  The libraries and the outside world, none of them part of the repository. The pure
  library functions:
  \<^item> \<open>check_bracketed_netloc\<close>: the validation, in \<open>urllib.parse.urlsplit\<close>, of a
    network location that holds both \<open>[\<close> and \<open>]\<close>: of the text between the brackets
    (\<open>_check_bracketed_host\<close>, CPython 3.11.4 and later) and, in the later patch releases,
    of what stands before and after them (\<open>_check_bracketed_netloc\<close>); the message of
    the \<open>ValueError\<close> it raises, or \<open>None\<close>;
  \<^item> \<open>unquote_escaped\<close>: \<open>urllib.parse.unquote\<close> on a string that contains \<open>%\<close>;
  \<^item> \<open>urljoin\<close>: \<open>urllib.parse.urljoin(base, url)\<close>;
  \<^item> \<open>html_parser\<close>: \<open>BeautifulSoup(html_text, "html.parser")\<close>;
  \<^item> \<open>trafilatura_extract\<close>: \<open>trafilatura.extract(html_text, include_comments=False,
    include_tables=False)\<close>;
  \<^item> \<open>bytes_decode\<close>: \<open>data.decode(enc, errors="replace")\<close>.

  The effects, each a function of the request; \<open>http_get\<close> and \<open>translate\<close> also take the
  number of calls of the same kind made earlier in the run, so that a repeated request
  may be answered differently:
  \<^item> \<open>decode_google_news_url\<close>: the headless-browser resolver (lines 221-287), which
    catches every exception and returns a URL;
  \<^item> \<open>try_google_news_redirect\<close>: the HTTP-only resolver (lines 165-199), which catches
    every exception and returns a URL or \<open>None\<close>;
  \<^item> \<open>http_get\<close>: \<open>requests.get(url, headers=..., timeout=timeout_s, allow_redirects=True,
    stream=True)\<close> in \<open>fetch_html\<close>;
  \<^item> \<open>new_translator\<close>: the constructor \<open>GoogleTranslator(source='auto', target=...)\<close>;
    the exception it raises, or \<open>None\<close>;
  \<^item> \<open>translate\<close>: \<open>translator.translate(text)\<close> of the translator built for a target;
  \<^item> \<open>iso_now\<close> and \<open>elapsed_ms\<close>: the clock.
\<close>

record env =
  check_bracketed_netloc :: "string \<Rightarrow> string option"
  unquote_escaped :: "string \<Rightarrow> string"
  urljoin :: "string \<Rightarrow> string \<Rightarrow> exn + string"
  html_parser :: "string \<Rightarrow> node"
  trafilatura_extract :: "string \<Rightarrow> exn + string option"
  bytes_decode :: "string \<Rightarrow> string \<Rightarrow> exn + string"
  decode_google_news_url :: "string \<Rightarrow> string"
  try_google_news_redirect :: "string \<Rightarrow> int \<Rightarrow> string option"
  http_get :: "nat \<Rightarrow> string \<Rightarrow> int \<Rightarrow> exn + response"
  new_translator :: "string \<Rightarrow> exn option"
  translate :: "string \<Rightarrow> nat \<Rightarrow> string \<Rightarrow> exn + string"
  iso_now :: string
  elapsed_ms :: int

section \<open>\<open>urllib.parse\<close>\<close>

text \<open>
  \<open>urlparse\<close> and \<open>parse_qs\<close> of the standard library (CPython 3.11.4 and later), which
  the code calls with their default arguments.
\<close>

record parse_result =
  scheme :: string
  netloc :: string
  path :: string
  params :: string
  query :: string
  fragment :: string

definition ascii_letters :: string where
  "ascii_letters = ''abcdefghijklmnopqrstuvwxyzABCDEFGHIJKLMNOPQRSTUVWXYZ''"

definition scheme_chars :: string where
  "scheme_chars = ascii_letters @ ''0123456789+-.''"

definition uses_params :: "string list" where
  "uses_params = ['''', ''ftp'', ''hdl'', ''prospero'', ''http'', ''imap'', ''https'',
     ''shttp'', ''rtsp'', ''rtspu'', ''sip'', ''sips'', ''mms'', ''sftp'', ''tel'']"

text \<open>The characters stripped from the left of a URL (C0 controls and space) and the
  ones removed everywhere (tab, carriage return, newline).\<close>

definition c0_or_space :: "char \<Rightarrow> bool" where
  "c0_or_space c \<longleftrightarrow> (of_char c :: nat) \<le> 32"

definition unsafe_url_char :: "char \<Rightarrow> bool" where
  "unsafe_url_char c \<longleftrightarrow> c \<in> set [CHR 0x09, CHR 0x0D, CHR 0x0A]"

text \<open>
  \<^verbatim>\<open>
  i = url.find(':')
  if i > 0 and url[0].isascii() and url[0].isalpha():
      for c in url[:i]:
          if c not in scheme_chars:
              break
      else:
          scheme, url = url[:i].lower(), url[i+1:]
  \<close>
\<close>

definition has_scheme :: "string \<Rightarrow> bool" where
  "has_scheme url \<longleftrightarrow>
     CHR '':'' \<in> set url \<and> takeWhile (\<lambda>c. c \<noteq> CHR '':'') url \<noteq> []
     \<and> hd url \<in> set ascii_letters
     \<and> list_all (\<lambda>c. c \<in> set scheme_chars) (takeWhile (\<lambda>c. c \<noteq> CHR '':'') url)"

definition split_scheme :: "string \<Rightarrow> string \<times> string" where
  "split_scheme url =
     (if has_scheme url
      then (lower (fst (split1 CHR '':'' url)), snd (split1 CHR '':'' url))
      else ([], url))"

text \<open>\<open>_splitnetloc(url, 2)\<close> when \<open>url[:2] == '//'\<close>: the network location ends before
  the first of \<open>/\<close>, \<open>?\<close> and \<open>#\<close>.\<close>

definition netloc_char :: "char \<Rightarrow> bool" where
  "netloc_char c \<longleftrightarrow> c \<notin> set ''/?#''"

definition split_netloc :: "string \<Rightarrow> string \<times> string" where
  "split_netloc url =
     (if take 2 url = ''//''
      then (takeWhile netloc_char (drop 2 url), dropWhile netloc_char (drop 2 url))
      else ([], url))"

text \<open>
  The \<open>ValueError\<close> of \<open>urlsplit\<close> for a network location, or \<open>None\<close>:
  \<^verbatim>\<open>
  if (('[' in netloc and ']' not in netloc) or
          (']' in netloc and '[' not in netloc)):
      raise ValueError("Invalid IPv6 URL")
  if '[' in netloc and ']' in netloc:
      ...
  \<close>
  where the second test hands the network location to the validation of the interpreter
  at hand. The last check of \<open>urlsplit\<close>, on the NFKC form of a non-ASCII network
  location, never fails on code points below U+0100.
\<close>

definition check_netloc :: "env \<Rightarrow> string \<Rightarrow> exn option" where
  "check_netloc E nl =
     (if (CHR ''['' \<in> set nl \<and> CHR '']'' \<notin> set nl) \<or> (CHR '']'' \<in> set nl \<and> CHR ''['' \<notin> set nl)
      then Some (ValueError ''Invalid IPv6 URL'')
      else if CHR ''['' \<in> set nl \<and> CHR '']'' \<in> set nl
      then map_option ValueError (check_bracketed_netloc E nl)
      else None)"

definition split_opt :: "char \<Rightarrow> string \<Rightarrow> string \<times> string" where
  "split_opt sep url = (if sep \<in> set url then split1 sep url else (url, []))"

definition urlsplit :: "env \<Rightarrow> string \<Rightarrow> exn + parse_result" where
  "urlsplit E url0 =
     (let url1 = filter (\<lambda>c. \<not> unsafe_url_char c) (dropWhile c0_or_space url0);
          (sch, url2) = split_scheme url1;
          (nl, url3) = split_netloc url2
      in case check_netloc E nl of
           Some e \<Rightarrow> Inl e
         | None \<Rightarrow>
             (let (url4, frag) = split_opt CHR ''#'' url3;
                  (pth, qry) = split_opt CHR ''?'' url4
              in Inr \<lparr>scheme = sch, netloc = nl, path = pth, params = [],
                      query = qry, fragment = frag\<rparr>))"

text \<open>
  \<^verbatim>\<open>
  def _splitparams(url):
      if '/'  in url:
          i = url.find(';', url.rfind('/'))
          if i < 0:
              return url, ''
      else:
          i = url.find(';')
      return url[:i], url[i+1:]
  \<close>
  called when \<open>';' in url\<close>.
\<close>

definition splitparams :: "string \<Rightarrow> string \<times> string" where
  "splitparams url =
     (if CHR ''/'' \<in> set url
      then (let seg = rev (takeWhile (\<lambda>c. c \<noteq> CHR ''/'') (rev url));
                pre = take (length url - length seg) url
            in if CHR '';'' \<in> set seg
               then (pre @ fst (split1 CHR '';'' seg), snd (split1 CHR '';'' seg))
               else (url, []))
      else split1 CHR '';'' url)"

definition urlparse :: "env \<Rightarrow> string \<Rightarrow> exn + parse_result" where
  "urlparse E url =
     (case urlsplit E url of
        Inl e \<Rightarrow> Inl e
      | Inr r \<Rightarrow>
          (if scheme r \<in> set uses_params \<and> CHR '';'' \<in> set (path r)
           then Inr (r\<lparr>path := fst (splitparams (path r)), params := snd (splitparams (path r))\<rparr>)
           else Inr r))"

text \<open>\<open>unquote(string)\<close> returns a string without \<open>%\<close> as it is.\<close>

definition unquote :: "env \<Rightarrow> string \<Rightarrow> string" where
  "unquote E s = (if CHR ''%'' \<in> set s then unquote_escaped E s else s)"

definition plus_to_space :: "string \<Rightarrow> string" where
  "plus_to_space s = map (\<lambda>c. if c = CHR ''+'' then SP else c) s"

text \<open>
  \<open>parse_qsl(qs)\<close>, with \<open>keep_blank_values=False\<close> and \<open>strict_parsing=False\<close>:
  \<^verbatim>\<open>
  for name_value in qs.split('&'):
      if not name_value and not strict_parsing:
          continue
      nv = name_value.split('=', 1)
      if len(nv) != 2:
          ...
          continue
      if len(nv[1]) or keep_blank_values:
          name = unquote(nv[0].replace('+', ' '))
          value = unquote(nv[1].replace('+', ' '))
          r.append((name, value))
  \<close>
\<close>

definition parse_field :: "env \<Rightarrow> string \<Rightarrow> (string \<times> string) option" where
  "parse_field E name_value =
     (if name_value = [] then None
      else if CHR ''='' \<notin> set name_value then None
      else (let nv = split1 CHR ''='' name_value
            in if snd nv \<noteq> []
               then Some (unquote E (plus_to_space (fst nv)), unquote E (plus_to_space (snd nv)))
               else None))"

definition parse_qsl :: "env \<Rightarrow> string \<Rightarrow> (string \<times> string) list" where
  "parse_qsl E qs = List.map_filter (parse_field E) (split CHR ''&'' qs)"

text \<open>
  \<open>parse_qs(qs)\<close>: a dictionary from each name to the list of its values, in order.
  \<^verbatim>\<open>
  for name, value in pairs:
      if name in parsed_result:
          parsed_result[name].append(value)
      else:
          parsed_result[name] = [value]
  \<close>
\<close>

fun parse_qs_add :: "(string \<rightharpoonup> string list) \<Rightarrow> (string \<times> string) list \<Rightarrow> (string \<rightharpoonup> string list)" where
  "parse_qs_add d [] = d"
| "parse_qs_add d ((name, v) # pairs) =
     (case d name of
        Some vs \<Rightarrow> parse_qs_add (d(name \<mapsto> vs @ [v])) pairs
      | None \<Rightarrow> parse_qs_add (d(name \<mapsto> [v])) pairs)"

definition parse_qs :: "env \<Rightarrow> string \<Rightarrow> (string \<rightharpoonup> string list)" where
  "parse_qs E qs = parse_qs_add Map.empty (parse_qsl E qs)"


section \<open>Wrapper detection and redirect links\<close>

text \<open>
  \<^verbatim>\<open>
  def is_google_news_wrapper(u: str) -> bool:
      try:
          p = urlparse(u)
          host = (p.netloc or "").lower()
          if host not in ("news.google.com", "www.google.com", "google.com"):
              return False
          if "/articles/" in p.path or "/rss/articles/" in p.path:
              return True
          if host in ("www.google.com", "google.com") and p.path == "/url":
              return True
          return False
      except Exception:
          return False
  \<close>
\<close>

definition is_google_news_wrapper :: "env \<Rightarrow> string \<Rightarrow> bool" where
  "is_google_news_wrapper E u =
     (case urlparse E u of
        Inl e \<Rightarrow> False
      | Inr p \<Rightarrow>
          (let host = lower (netloc p)
           in if host \<notin> set [''news.google.com'', ''www.google.com'', ''google.com'']
              then False
              else if sublist ''/articles/'' (path p) \<or> sublist ''/rss/articles/'' (path p)
              then True
              else if host \<in> set [''www.google.com'', ''google.com''] \<and> path p = ''/url''
              then True
              else False))"

text \<open>
  \<^verbatim>\<open>
  def unwrap_google_redirect(href: str) -> str:
      try:
          p = urlparse(href)
          host = (p.netloc or "").lower()
          if host not in ("www.google.com", "google.com"):
              return href
          if p.path != "/url":
              return href
          qs = parse_qs(p.query)
          if "url" in qs and qs["url"]:
              return qs["url"][0]
          if "q" in qs and qs["q"]:
              return qs["q"][0]
          return href
      except Exception:
          return href
  \<close>
\<close>

definition unwrap_google_redirect :: "env \<Rightarrow> string \<Rightarrow> string" where
  "unwrap_google_redirect E href =
     (case urlparse E href of
        Inl e \<Rightarrow> href
      | Inr p \<Rightarrow>
          (let host = lower (netloc p)
           in if host \<notin> set [''www.google.com'', ''google.com''] then href
              else if path p \<noteq> ''/url'' then href
              else (let qs = parse_qs E (query p)
                    in case qs ''url'' of
                         Some (v # vs) \<Rightarrow> v
                       | _ \<Rightarrow>
                           (case qs ''q'' of
                              Some (v # vs) \<Rightarrow> v
                            | _ \<Rightarrow> href))))"


section \<open>Queries on the document tree\<close>

text \<open>The tags and strings below a node, in document order (\<open>tag.descendants\<close>).\<close>

fun descendants :: "node \<Rightarrow> node list" where
  "descendants (Text s) = []"
| "descendants (Comment s) = []"
| "descendants (Element t as ks) = concat (map (\<lambda>k. k # descendants k) ks)"

definition is_tag :: "string list \<Rightarrow> node \<Rightarrow> bool" where
  "is_tag names n = (case n of Element t as ks \<Rightarrow> t \<in> set names | _ \<Rightarrow> False)"

text \<open>\<open>tag.get(key)\<close>\<close>

definition get :: "node \<Rightarrow> string \<Rightarrow> string option" where
  "get n key = (case n of Element t as ks \<Rightarrow> map_of as key | _ \<Rightarrow> None)"

text \<open>\<open>soup.find_all(name)\<close>, \<open>soup([name, ...])\<close> and \<open>soup.find(name)\<close>\<close>

definition find_all :: "string list \<Rightarrow> node \<Rightarrow> node list" where
  "find_all names soup = filter (is_tag names) (descendants soup)"

definition soup_find :: "string \<Rightarrow> node \<Rightarrow> node option" where
  "soup_find name soup = List.find (is_tag [name]) (descendants soup)"

text \<open>\<open>soup.find(name, attrs={key: value})\<close> for an attribute with one value\<close>

definition soup_find_attr :: "string \<Rightarrow> string \<Rightarrow> string \<Rightarrow> node \<Rightarrow> node option" where
  "soup_find_attr name key v soup =
     List.find (\<lambda>n. is_tag [name] n \<and> get n key = Some v) (descendants soup)"

text \<open>The tokens of a multi-valued attribute such as \<open>rel\<close>: the maximal runs of
  characters that are not whitespace.\<close>

function tokens :: "string \<Rightarrow> string list" where
  "tokens s =
     (let s' = dropWhile isspace s
      in if s' = [] then []
         else takeWhile (\<lambda>c. \<not> isspace c) s' # tokens (dropWhile (\<lambda>c. \<not> isspace c) s'))"
  by pat_completeness auto
termination
proof (relation "measure length")
  show "wf (measure length)" by simp
next
  fix s s' :: string
  assume a: "s' = dropWhile isspace s" "s' \<noteq> []"
  then have "\<not> isspace (hd s')" using hd_dropWhile[of isspace s] by simp
  with a(2) have "length (dropWhile (\<lambda>c. \<not> isspace c) s') < length s'"
    by (cases s') (auto simp: less_Suc_eq_le length_dropWhile_le)
  also have "length s' \<le> length s" using a(1) by (simp add: length_dropWhile_le)
  finally show "(dropWhile (\<lambda>c. \<not> isspace c) s', s) \<in> measure length" by simp
qed

declare tokens.simps [simp del]

text \<open>\<open>soup.find("link", attrs={"rel": "canonical"})\<close>: a value that is a list of tokens
  matches when one token is the string searched, or the tokens joined by spaces are.\<close>

definition rel_matches :: "string \<Rightarrow> node \<Rightarrow> bool" where
  "rel_matches v n =
     (case get n ''rel'' of
        None \<Rightarrow> False
      | Some r \<Rightarrow> v \<in> set (tokens r) \<or> join '' '' (tokens r) = v)"

definition soup_find_rel :: "string \<Rightarrow> string \<Rightarrow> node \<Rightarrow> node option" where
  "soup_find_rel name v soup =
     List.find (\<lambda>n. is_tag [name] n \<and> rel_matches v n) (descendants soup)"

text \<open>\<open>tag.get_text(separator, strip=True)\<close>: the text strings below the tag, each one
  stripped, the empty ones left out, joined by the separator. Comments are no text.\<close>

definition text_of :: "node \<Rightarrow> string option" where
  "text_of n = (case n of Text s \<Rightarrow> Some s | _ \<Rightarrow> None)"

definition stripped_strings :: "node \<Rightarrow> string list" where
  "stripped_strings n =
     filter (\<lambda>s. s \<noteq> []) (map strip (List.map_filter text_of (descendants n)))"

definition get_text :: "string \<Rightarrow> node \<Rightarrow> string" where
  "get_text separator n = join separator (stripped_strings n)"

text \<open>
  \<^verbatim>\<open>
  for tag in soup(["script", "style", "noscript", "header", "footer", "nav", "aside"]):
      tag.decompose()
  \<close>
  removes every such tag, with all that is below it, from the tree.
\<close>

fun decompose :: "string list \<Rightarrow> node \<Rightarrow> node"
  and decompose_all :: "string list \<Rightarrow> node list \<Rightarrow> node list" where
  "decompose names (Text s) = Text s"
| "decompose names (Comment s) = Comment s"
| "decompose names (Element t as ks) = Element t as (decompose_all names ks)"
| "decompose_all names [] = []"
| "decompose_all names (k # ks) =
     (if is_tag names k then decompose_all names ks
      else decompose names k # decompose_all names ks)"

section \<open>Content extraction\<close>

definition non_content_tags :: "string list" where
  "non_content_tags = [''script'', ''style'', ''noscript'', ''header'', ''footer'', ''nav'', ''aside'']"

text \<open>
  \<^verbatim>\<open>
  candidates = []
  for sel in ["main", "div", "section"]:
      for node in soup.find_all(sel):
          t = normalize_space(node.get_text("\n", strip=True))
          if len(t) >= 800:
              candidates.append((len(t), t))
  \<close>
\<close>

definition candidate :: "node \<Rightarrow> (nat \<times> string) option" where
  "candidate n =
     (let t = normalize_space (get_text [NL] n)
      in if length t \<ge> 800 then Some (length t, t) else None)"

definition candidates :: "node \<Rightarrow> (nat \<times> string) list" where
  "candidates soup =
     concat (map (\<lambda>sel. List.map_filter candidate (find_all [sel] soup))
               [''main'', ''div'', ''section''])"

text \<open>\<open>xs.sort(key=lambda x: x[0], reverse=True)\<close>: a stable sort by descending key,
  which is the stable ascending sort of the reversed list, reversed.\<close>

definition sort_reverse :: "(nat \<times> string) list \<Rightarrow> (nat \<times> string) list" where
  "sort_reverse xs = rev (sort_key fst (rev xs))"

text \<open>
  The part of \<open>extract_main_text\<close> after the specialized engine (lines 78-101):
  \<^verbatim>\<open>
  article = soup.find("article")
  if article:
      return normalize_space(article.get_text("\n", strip=True))
  ...
  if candidates:
      candidates.sort(key=lambda x: x[0], reverse=True)
      return candidates[0][1]
  body = soup.find("body")
  if body:
      return normalize_space(body.get_text("\n", strip=True))
  return ""
  \<close>
\<close>

definition fallback_text :: "node \<Rightarrow> string" where
  "fallback_text soup0 =
     (let soup = decompose non_content_tags soup0
      in case soup_find ''article'' soup of
           Some article \<Rightarrow> normalize_space (get_text [NL] article)
         | None \<Rightarrow>
             (case sort_reverse (candidates soup) of
                c # cs \<Rightarrow> snd c
              | [] \<Rightarrow>
                  (case soup_find ''body'' soup of
                     Some body \<Rightarrow> normalize_space (get_text [NL] body)
                   | None \<Rightarrow> [])))"

text \<open>
  \<^verbatim>\<open>
  try:
      text = trafilatura.extract(html_text, include_comments=False, include_tables=False)
      if text:
          return normalize_space(text)
  except Exception:
      pass
  \<close>
\<close>

definition extract_main_text :: "env \<Rightarrow> node \<Rightarrow> string \<Rightarrow> string" where
  "extract_main_text E soup html_text =
     (case trafilatura_extract E html_text of
        Inr (Some t) \<Rightarrow> if t \<noteq> [] then normalize_space t else fallback_text soup
      | Inr None \<Rightarrow> fallback_text soup
      | Inl e \<Rightarrow> fallback_text soup)"

section \<open>Metadata\<close>

text \<open>
  \<^verbatim>\<open>
  def pick_meta(soup, *keys):
      for k in keys:
          tag = soup.find("meta", attrs={"name": k})
          if tag and tag.get("content"):
              return tag["content"].strip()
          tag = soup.find("meta", attrs={"property": k})
          if tag and tag.get("content"):
              return tag["content"].strip()
      return None
  \<close>
\<close>

definition meta_content :: "node \<Rightarrow> string \<Rightarrow> string \<Rightarrow> string option" where
  "meta_content soup key k =
     (case soup_find_attr ''meta'' key k soup of
        None \<Rightarrow> None
      | Some tag \<Rightarrow>
          (case get tag ''content'' of
             None \<Rightarrow> None
           | Some c \<Rightarrow> if c \<noteq> [] then Some (strip c) else None))"

fun pick_meta :: "node \<Rightarrow> string list \<Rightarrow> string option" where
  "pick_meta soup [] = None"
| "pick_meta soup (k # keys) =
     (case meta_content soup ''name'' k of
        Some c \<Rightarrow> Some c
      | None \<Rightarrow>
          (case meta_content soup ''property'' k of
             Some c \<Rightarrow> Some c
           | None \<Rightarrow> pick_meta soup keys))"

text \<open>\<open>x or None\<close> and \<open>x or y\<close> on optional strings: \<open>None\<close> and the empty string are
  false.\<close>

definition or_none :: "string \<Rightarrow> string option" where
  "or_none s = (if s \<noteq> [] then Some s else None)"

definition py_or :: "string option \<Rightarrow> string option \<Rightarrow> string option" where
  "py_or a b = (case a of Some s \<Rightarrow> if s \<noteq> [] then Some s else b | None \<Rightarrow> b)"

text \<open>
  \<^verbatim>\<open>
  def detect_lang(soup):
      html = soup.find("html")
      if not html:
          return None
      lang = html.get("lang")
      if not lang:
          return None
      return lang.split("-")[0].lower().strip() or None
  \<close>
\<close>

definition detect_lang :: "node \<Rightarrow> string option" where
  "detect_lang soup =
     (case soup_find ''html'' soup of
        None \<Rightarrow> None
      | Some html \<Rightarrow>
          (case get html ''lang'' of
             None \<Rightarrow> None
           | Some lang \<Rightarrow>
               if lang = [] then None
               else or_none (strip (lower (hd (split CHR ''-'' lang))))))"

text \<open>
  \<^verbatim>\<open>
  def clean_lang(lang):
      if not isinstance(lang, str):
          return None
      lang = lang.strip()
      if "_" in lang:
          lang = lang.split("_")[0]
      if "-" in lang:
          lang = lang.split("-")[0]
      lang = lang.lower().strip()
      return lang or None
  \<close>
\<close>

definition clean_lang :: "string option \<Rightarrow> string option" where
  "clean_lang l =
     (case l of
        None \<Rightarrow> None
      | Some lang0 \<Rightarrow>
          (let lang1 = strip lang0;
               lang2 = (if CHR ''_'' \<in> set lang1 then hd (split CHR ''_'' lang1) else lang1);
               lang3 = (if CHR ''-'' \<in> set lang2 then hd (split CHR ''-'' lang2) else lang2)
           in or_none (strip (lower lang3))))"


section \<open>Publisher link extraction\<close>

definition cta_phrases :: "string list" where
  "cta_phrases = [''read full article'', ''view full coverage'', ''go to article'']"

text \<open>\<open>soup.find_all("a", href=True)\<close>: the anchors that have an \<open>href\<close> attribute.\<close>

definition anchors :: "node \<Rightarrow> node list" where
  "anchors soup = filter (\<lambda>n. is_tag [''a''] n \<and> get n ''href'' \<noteq> None) (descendants soup)"

text \<open>\<open>a.get("href", "").strip()\<close> and \<open>a["href"].strip()\<close> on such an anchor\<close>

definition href_of :: "node \<Rightarrow> string" where
  "href_of a = strip (case get a ''href'' of Some h \<Rightarrow> h | None \<Rightarrow> [])"

text \<open>
  Strategy 1 (lines 296-308). \<open>urlparse(href).netloc\<close> is outside any \<open>try\<close>: its
  \<open>ValueError\<close> leaves the function.
  \<^verbatim>\<open>
  for a in soup.find_all("a", href=True):
      href = a.get("href", "").strip()
      if not href:
          continue
      link_text = a.get_text(strip=True).lower()
      if any(phrase in link_text for phrase in [...]):
          href = unwrap_google_redirect(href)
          if href.startswith("http"):
              host = urlparse(href).netloc
              if host and host != "news.google.com":
                  return href
  \<close>
\<close>

fun strategy1 :: "env \<Rightarrow> node list \<Rightarrow> exn + string option" where
  "strategy1 E [] = Inr None"
| "strategy1 E (a # as) =
     (if href_of a = [] then strategy1 E as
      else if list_ex (\<lambda>phrase. sublist phrase (lower (get_text [] a))) cta_phrases
      then (let href = unwrap_google_redirect E (href_of a)
            in if prefix ''http'' href
               then (case urlparse E href of
                       Inl e \<Rightarrow> Inl e
                     | Inr p \<Rightarrow>
                         if netloc p \<noteq> [] \<and> netloc p \<noteq> ''news.google.com''
                         then Inr (Some href)
                         else strategy1 E as)
               else strategy1 E as)
      else strategy1 E as)"

text \<open>
  Strategy 2 (lines 311-315):
  \<^verbatim>\<open>
  canon = soup.find("link", attrs={"rel": "canonical"})
  if canon and canon.get("href"):
      href = canon["href"].strip()
      if href.startswith("http") and "news.google.com" not in (urlparse(href).netloc or ""):
          return href
  \<close>
\<close>

definition strategy2 :: "env \<Rightarrow> node \<Rightarrow> exn + string option" where
  "strategy2 E soup =
     (case soup_find_rel ''link'' ''canonical'' soup of
        None \<Rightarrow> Inr None
      | Some canon \<Rightarrow>
          (case get canon ''href'' of
             None \<Rightarrow> Inr None
           | Some h \<Rightarrow>
               if h = [] then Inr None
               else (let href = strip h
                     in if prefix ''http'' href
                        then (case urlparse E href of
                                Inl e \<Rightarrow> Inl e
                              | Inr p \<Rightarrow>
                                  if \<not> sublist ''news.google.com'' (netloc p)
                                  then Inr (Some href)
                                  else Inr None)
                        else Inr None)))"

text \<open>
  Strategy 3 (lines 318-344); \<open>ext\<close> is \<open>external_links\<close>, and the equation for the
  empty list is the code after the loop.
  \<^verbatim>\<open>
  for a in soup.find_all("a", href=True):
      href = a["href"].strip()
      if not href:
          continue
      if href.startswith("./"):
          href = urljoin(base_url, href)
      elif href.startswith("/"):
          href = urljoin("https://news.google.com", href)
      href = unwrap_google_redirect(href)
      if href.startswith("http"):
          host = urlparse(href).netloc
          if host and host != "news.google.com":
              parsed = urlparse(href)
              if parsed.path and len(parsed.path) > 1:
                  return href
              external_links.append(href)
  if external_links:
      return external_links[0]
  return None
  \<close>
\<close>

definition absolute_href :: "env \<Rightarrow> string \<Rightarrow> string \<Rightarrow> exn + string" where
  "absolute_href E base_url href =
     (if prefix ''./'' href then urljoin E base_url href
      else if prefix ''/'' href then urljoin E ''https://news.google.com'' href
      else Inr href)"

fun strategy3 :: "env \<Rightarrow> string \<Rightarrow> node list \<Rightarrow> string list \<Rightarrow> exn + string option" where
  "strategy3 E base_url [] ext = (case ext of [] \<Rightarrow> Inr None | x # xs \<Rightarrow> Inr (Some x))"
| "strategy3 E base_url (a # as) ext =
     (if href_of a = [] then strategy3 E base_url as ext
      else (case absolute_href E base_url (href_of a) of
              Inl e \<Rightarrow> Inl e
            | Inr href1 \<Rightarrow>
                (let href = unwrap_google_redirect E href1
                 in if prefix ''http'' href
                    then (case urlparse E href of
                            Inl e \<Rightarrow> Inl e
                          | Inr p \<Rightarrow>
                              if netloc p \<noteq> [] \<and> netloc p \<noteq> ''news.google.com''
                              then (if path p \<noteq> [] \<and> length (path p) > 1
                                    then Inr (Some href)
                                    else strategy3 E base_url as (ext @ [href]))
                              else strategy3 E base_url as ext)
                    else strategy3 E base_url as ext)))"

definition extract_publisher_url_from_google_news ::
    "env \<Rightarrow> string \<Rightarrow> string \<Rightarrow> exn + string option" where
  "extract_publisher_url_from_google_news E html_text base_url =
     (let soup = html_parser E html_text
      in case strategy1 E (anchors soup) of
           Inl e \<Rightarrow> Inl e
         | Inr (Some href) \<Rightarrow> Inr (Some href)
         | Inr None \<Rightarrow>
             (case strategy2 E soup of
                Inl e \<Rightarrow> Inl e
              | Inr (Some href) \<Rightarrow> Inr (Some href)
              | Inr None \<Rightarrow> strategy3 E base_url (anchors soup) []))"

text \<open>
  The test of the anchor scan in \<open>decode_google_news_url\<close> (lines 273-275), which runs
  inside a \<open>try\<close> block:
  \<^verbatim>\<open>
  href = unwrap_google_redirect(href)
  if href.startswith("http") and "google" not in urlparse(href).netloc:
      return href
  \<close>
\<close>

definition browser_scan_accepts :: "env \<Rightarrow> string \<Rightarrow> bool" where
  "browser_scan_accepts E href \<longleftrightarrow>
     prefix ''http'' href
     \<and> (case urlparse E href of
          Inl e \<Rightarrow> False
        | Inr p \<Rightarrow> \<not> sublist ''google'' (netloc p))"


section \<open>The fetcher\<close>

text \<open>
  \<^verbatim>\<open>
  ctype = (r.headers.get("Content-Type") or "").lower()
  if ctype and ("text/html" not in ctype and "application/xhtml+xml" not in ctype
                and "application/xml" not in ctype):
      raise RuntimeError(f"unsupported content-type: {ctype}")
  \<close>
\<close>

definition ctype_of :: "response \<Rightarrow> string" where
  "ctype_of r = lower (case content_type r of Some c \<Rightarrow> c | None \<Rightarrow> [])"

definition unsupported_ctype :: "string \<Rightarrow> bool" where
  "unsupported_ctype ctype \<longleftrightarrow>
     ctype \<noteq> [] \<and> \<not> sublist ''text/html'' ctype \<and> \<not> sublist ''application/xhtml+xml'' ctype
     \<and> \<not> sublist ''application/xml'' ctype"

text \<open>
  The streaming loop; the state is \<open>(chunks, total)\<close>, with \<open>total\<close> written
  \<open>total_bytes\<close>.
  \<^verbatim>\<open>
  chunks = []
  total = 0
  for chunk in r.iter_content(chunk_size=64 * 1024):
      if not chunk:
          continue
      total += len(chunk)
      if total > max_bytes:
          raise RuntimeError("response too large")
      chunks.append(chunk)
  \<close>
\<close>

definition chunk_size :: int where
  "chunk_size = 64 * 1024"

fun read_chunks :: "int \<Rightarrow> string list \<Rightarrow> string list \<times> int \<Rightarrow> exn + string list \<times> int" where
  "read_chunks max_bytes [] (chunks, total_bytes) = Inr (chunks, total_bytes)"
| "read_chunks max_bytes (chunk # rest) (chunks, total_bytes) =
     (if chunk = [] then read_chunks max_bytes rest (chunks, total_bytes)
      else if total_bytes + int (length chunk) > max_bytes
      then Inl (RuntimeError ''response too large'')
      else read_chunks max_bytes rest (chunks @ [chunk], total_bytes + int (length chunk)))"

text \<open>
  \<^verbatim>\<open>
  data = b"".join(chunks)
  enc = r.encoding or "utf-8"
  try:
      html_text = data.decode(enc, errors="replace")
  except Exception:
      html_text = data.decode("utf-8", errors="replace")
  return html_text, r.url, ctype
  \<close>
\<close>

definition decode_body :: "env \<Rightarrow> response \<Rightarrow> string \<Rightarrow> exn + string" where
  "decode_body E r data =
     (let enc = (case encoding r of Some e \<Rightarrow> if e \<noteq> [] then e else ''utf-8'' | None \<Rightarrow> ''utf-8'')
      in case bytes_decode E enc data of
           Inr html_text \<Rightarrow> Inr html_text
         | Inl e \<Rightarrow> bytes_decode E ''utf-8'' data)"

text \<open>
  \<open>fetch_html(url, timeout_s, max_bytes)\<close>, as the \<open>n\<close>-th fetch of the run. An exception
  of \<open>requests.get\<close>, of \<open>raise_for_status\<close> or of the stream leaves the function.
\<close>

definition fetch_html :: "env \<Rightarrow> nat \<Rightarrow> string \<Rightarrow> int \<Rightarrow> int \<Rightarrow> exn + string \<times> string \<times> string" where
  "fetch_html E n url timeout_s max_bytes =
     (case http_get E n url timeout_s of
        Inl e \<Rightarrow> Inl e
      | Inr r \<Rightarrow>
          (case status_error r of
             Some e \<Rightarrow> Inl e
           | None \<Rightarrow>
               if unsupported_ctype (ctype_of r)
               then Inl (RuntimeError (''unsupported content-type: '' @ ctype_of r))
               else (case read_chunks max_bytes (body_chunks r) ([], 0) of
                       Inl e \<Rightarrow> Inl e
                     | Inr (chunks, total_bytes) \<Rightarrow>
                         (case body_error r of
                            Some e \<Rightarrow> Inl e
                          | None \<Rightarrow>
                              (case decode_body E r (concat chunks) of
                                 Inl e \<Rightarrow> Inl e
                               | Inr html_text \<Rightarrow> Inr (html_text, resp_url r, ctype_of r))))))"


section \<open>The worker\<close>

text \<open>The parsed command line (\<open>--url\<close>, \<open>--timeout\<close>, \<open>--max-bytes\<close>, \<open>--debug\<close>,
  \<open>--target-lang\<close>). The debug messages go to the standard error stream and change no
  result; they are left out.\<close>

record args =
  arg_url :: string
  arg_timeout :: int
  arg_max_bytes :: int
  arg_debug :: bool
  arg_target_lang :: "string option"

text \<open>The dataclass \<open>Extracted\<close>; each field carries the prefix \<open>data_\<close>.\<close>

record extracted =
  data_url :: string
  data_resolved_url :: string
  data_final_url :: string
  data_site :: string
  data_title :: string
  data_author :: "string option"
  data_published_at :: "string option"
  data_lang :: "string option"
  data_text :: string
  data_fetched_at :: string

text \<open>The payload handed to \<open>safe_json_output\<close>: \<open>{"ok": True, "elapsed_ms": ..., "data":
  ...}\<close> or \<open>{"ok": False, "elapsed_ms": ..., "error": ..., "data": None}\<close>.\<close>

datatype payload =
    Success int extracted
  | Failure int string

text \<open>
  The pre-check (lines 400-423); the result is \<open>original_url\<close>, and \<open>resolved_url\<close> is
  the same string.
  \<^verbatim>\<open>
  if is_google_news_wrapper(original_url):
      decoded = decode_google_news_url(original_url)
      if decoded != original_url:
          original_url = decoded
      else:
          redirected = try_google_news_redirect(original_url, args.timeout)
          if redirected:
              original_url = redirected
  \<close>
\<close>

definition precheck :: "env \<Rightarrow> args \<Rightarrow> string \<Rightarrow> string" where
  "precheck E A original_url =
     (if is_google_news_wrapper E original_url
      then (let decoded = decode_google_news_url E original_url
            in if decoded \<noteq> original_url then decoded
               else (case try_google_news_redirect E original_url (arg_timeout A) of
                       Some redirected \<Rightarrow> if redirected \<noteq> [] then redirected else original_url
                     | None \<Rightarrow> original_url))
      else original_url)"

text \<open>
  The unwrap loop (lines 432-451); the state is \<open>(html_text, final_url, resolved_url,
  unwrap_count)\<close>. The re-fetch with \<open>unwrap_count = k\<close> is fetch number \<open>k + 1\<close> of the
  run.
  \<^verbatim>\<open>
  max_unwrap_attempts = 2
  unwrap_count = 0
  while (is_google_news_wrapper(final_url) or is_google_news_wrapper(original_url)) \
          and unwrap_count < max_unwrap_attempts:
      pub = extract_publisher_url_from_google_news(html_text, final_url)
      if pub:
          html_text, final_url, _ctype = fetch_html(pub, args.timeout, args.max_bytes)
          resolved_url = final_url
          unwrap_count += 1
      else:
          raise RuntimeError("Could not unwrap Google News article - no publisher link found")
  \<close>
\<close>

definition max_unwrap_attempts :: nat where
  "max_unwrap_attempts = 2"

definition unwrap_error :: exn where
  "unwrap_error = RuntimeError ''Could not unwrap Google News article - no publisher link found''"

function unwrap_loop ::
    "env \<Rightarrow> args \<Rightarrow> string \<Rightarrow> string \<times> string \<times> string \<times> nat
       \<Rightarrow> exn + string \<times> string \<times> string \<times> nat" where
  "unwrap_loop E A original_url (html_text, final_url, resolved_url, unwrap_count) =
     (if (is_google_news_wrapper E final_url \<or> is_google_news_wrapper E original_url)
          \<and> unwrap_count < max_unwrap_attempts
      then (case extract_publisher_url_from_google_news E html_text final_url of
              Inl e \<Rightarrow> Inl e
            | Inr None \<Rightarrow> Inl unwrap_error
            | Inr (Some pub) \<Rightarrow>
                if pub = [] then Inl unwrap_error
                else (case fetch_html E (Suc unwrap_count) pub (arg_timeout A) (arg_max_bytes A) of
                        Inl e \<Rightarrow> Inl e
                      | Inr (html_text', final_url', ctype) \<Rightarrow>
                          unwrap_loop E A original_url
                            (html_text', final_url', final_url', Suc unwrap_count)))
      else Inr (html_text, final_url, resolved_url, unwrap_count))"
  by pat_completeness auto
termination
  by (relation "measure (\<lambda>(E, A, original_url, html_text, final_url, resolved_url, unwrap_count).
        max_unwrap_attempts - unwrap_count)") auto

declare unwrap_loop.simps [simp del]

text \<open>
  The translation stage (lines 464-491).
  \<^verbatim>\<open>
  if args.target_lang and args.target_lang != lang:
      translator = GoogleTranslator(source='auto', target=args.target_lang)
      if title:
          try:
              title = translator.translate(title)
          except Exception as e:
              ...
      if text:
          try:
              chunks = [text[i:i+4500] for i in range(0, len(text), 4500)]
              translated_chunks = []
              for chunk in chunks:
                  translated_chunks.append(translator.translate(chunk))
              text = " ".join(translated_chunks)
          except Exception as e:
              ...
  \<close>
\<close>

definition translation_active :: "string option \<Rightarrow> string option \<Rightarrow> bool" where
  "translation_active target_lang lang \<longleftrightarrow>
     (case target_lang of None \<Rightarrow> False | Some t \<Rightarrow> t \<noteq> [] \<and> Some t \<noteq> lang)"

text \<open>\<open>[text[i:i+n] for i in range(0, len(text), n)]\<close>\<close>

function chunks_of :: "nat \<Rightarrow> string \<Rightarrow> string list" where
  "chunks_of n s = (if s = [] \<or> n = 0 then [] else take n s # chunks_of n (drop n s))"
  by pat_completeness auto
termination
  by (relation "measure (\<lambda>(n, s). length s)") auto

declare chunks_of.simps [simp del]

text \<open>The title; the result comes with the number of calls of \<open>translate\<close> made.\<close>

definition translate_title :: "env \<Rightarrow> string \<Rightarrow> string \<Rightarrow> string \<times> nat" where
  "translate_title E target title =
     (if title \<noteq> []
      then (case translate E target 0 title of
              Inr t \<Rightarrow> (t, 1)
            | Inl e \<Rightarrow> (title, 1))
      else (title, 0))"

text \<open>The loop over the chunks, from call number \<open>n\<close> on.\<close>

fun translate_chunks :: "env \<Rightarrow> string \<Rightarrow> nat \<Rightarrow> string list \<Rightarrow> exn + string list" where
  "translate_chunks E target n [] = Inr []"
| "translate_chunks E target n (chunk # rest) =
     (case translate E target n chunk of
        Inl e \<Rightarrow> Inl e
      | Inr t \<Rightarrow>
          (case translate_chunks E target (Suc n) rest of
             Inl e \<Rightarrow> Inl e
           | Inr ts \<Rightarrow> Inr (t # ts)))"

definition translate_text :: "env \<Rightarrow> string \<Rightarrow> nat \<Rightarrow> string \<Rightarrow> string" where
  "translate_text E target n txt =
     (if txt \<noteq> []
      then (case translate_chunks E target n (chunks_of 4500 txt) of
              Inr ts \<Rightarrow> join '' '' ts
            | Inl e \<Rightarrow> txt)
      else txt)"

definition translation_stage ::
    "env \<Rightarrow> string option \<Rightarrow> string option \<Rightarrow> string \<Rightarrow> string \<Rightarrow> exn + string \<times> string" where
  "translation_stage E target_lang lang title txt =
     (if translation_active target_lang lang
      then (case target_lang of
              None \<Rightarrow> Inr (title, txt)
            | Some target \<Rightarrow>
                (case new_translator E target of
                   Some e \<Rightarrow> Inl e
                 | None \<Rightarrow>
                     (let (title', n) = translate_title E target title
                      in Inr (title', translate_text E target n txt))))
      else Inr (title, txt))"

text \<open>
  The metadata of the page and the record (lines 453-504).
  \<^verbatim>\<open>
  soup = BeautifulSoup(html_text, "html.parser")
  site = urlparse(final_url).netloc
  title = pick_meta(soup, "og:title", "twitter:title") or
          (soup.title.get_text(strip=True) if soup.title else "")
  author = pick_meta(soup, "author", "article:author")
  published = pick_meta(soup, "article:published_time", "og:updated_time", "date", "pubdate")
  lang = clean_lang(detect_lang(soup) or pick_meta(soup, "og:locale"))
  text = extract_main_text(soup, html_text)
  \<close>
\<close>

definition page_title :: "node \<Rightarrow> string" where
  "page_title soup =
     (case py_or (pick_meta soup [''og:title'', ''twitter:title'']) None of
        Some t \<Rightarrow> t
      | None \<Rightarrow>
          (case soup_find ''title'' soup of
             Some tag \<Rightarrow> get_text [] tag
           | None \<Rightarrow> []))"

definition page_lang :: "node \<Rightarrow> string option" where
  "page_lang soup = clean_lang (py_or (detect_lang soup) (pick_meta soup [''og:locale'']))"

definition build_article ::
    "env \<Rightarrow> args \<Rightarrow> string \<Rightarrow> string \<times> string \<times> string \<times> nat \<Rightarrow> exn + extracted" where
  "build_article E A original_url st =
     (case st of (html_text, final_url, resolved_url, unwrap_count) \<Rightarrow>
        (let soup = html_parser E html_text
         in case urlparse E final_url of
              Inl e \<Rightarrow> Inl e
            | Inr p \<Rightarrow>
                (case translation_stage E (arg_target_lang A) (page_lang soup)
                        (page_title soup) (extract_main_text E soup html_text) of
                   Inl e \<Rightarrow> Inl e
                 | Inr (title, txt) \<Rightarrow>
                     Inr \<lparr>data_url = original_url, data_resolved_url = resolved_url,
                          data_final_url = final_url, data_site = netloc p,
                          data_title = title,
                          data_author = pick_meta soup [''author'', ''article:author''],
                          data_published_at = pick_meta soup [''article:published_time'',
                            ''og:updated_time'', ''date'', ''pubdate''],
                          data_lang = page_lang soup, data_text = txt,
                          data_fetched_at = iso_now E\<rparr>)))"

text \<open>The body of the \<open>try\<close> block of \<open>main\<close> (lines 395-504).\<close>

definition main_body :: "env \<Rightarrow> args \<Rightarrow> exn + extracted" where
  "main_body E A =
     (let original_url = precheck E A (strip (arg_url A))
      in case fetch_html E 0 original_url (arg_timeout A) (arg_max_bytes A) of
           Inl e \<Rightarrow> Inl e
         | Inr (html_text, final_url, ctype) \<Rightarrow>
             (case unwrap_loop E A original_url (html_text, final_url, final_url, 0) of
                Inl e \<Rightarrow> Inl e
              | Inr st \<Rightarrow> build_article E A original_url st))"

text \<open>A natural number in decimal, as \<open>str\<close> and an f-string print it.\<close>

function str_nat :: "nat \<Rightarrow> string" where
  "str_nat n =
     (if n < 10 then [char_of (48 + n)] else str_nat (n div 10) @ [char_of (48 + n mod 10)])"
  by pat_completeness auto
termination
  by (relation "measure id") auto

declare str_nat.simps [simp del]

text \<open>
  \<open>main\<close>: the payload handed to \<open>safe_json_output\<close> and the value returned, which is
  the exit status of the process (lines 506-531).
  \<^verbatim>\<open>
      payload = {"ok": True, "elapsed_ms": elapsed, "data": out.__dict__}
      safe_json_output(payload)
      return 0
  except requests.exceptions.HTTPError as e:
      error_msg = f"HTTP {e.response.status_code}: {str(e)}"
      ...
      return 2
  except requests.exceptions.Timeout:
      payload = {"ok": False, "elapsed_ms": elapsed, "error": "Request timeout", "data": None}
      ...
      return 2
  except Exception as e:
      error_msg = f"{type(e).__name__}: {str(e)}"
      ...
      return 2
  \<close>
\<close>

definition main :: "env \<Rightarrow> args \<Rightarrow> payload \<times> int" where
  "main E A =
     (case main_body E A of
        Inr out \<Rightarrow> (Success (elapsed_ms E) out, 0)
      | Inl (HTTPError status msg) \<Rightarrow>
          (Failure (elapsed_ms E) (''HTTP '' @ str_nat status @ '': '' @ msg), 2)
      | Inl (Timeout msg) \<Rightarrow> (Failure (elapsed_ms E) ''Request timeout'', 2)
      | Inl (Other type_name msg) \<Rightarrow> (Failure (elapsed_ms E) (type_name @ '': '' @ msg), 2))"

text \<open>The field \<open>ok\<close> of the payload.\<close>

definition ok :: "payload \<Rightarrow> bool" where
  "ok p = (case p of Success ms out \<Rightarrow> True | Failure ms err \<Rightarrow> False)"


section \<open>Concrete runs\<close>

text \<open>An \<open>unquote\<close> for escapes \<open>%XX\<close> of ASCII characters; an escape that is not two
  hexadecimal digits is kept as it is.\<close>

definition hex_val :: "char \<Rightarrow> nat option" where
  "hex_val c =
     (let n = (of_char c :: nat)
      in if 48 \<le> n \<and> n \<le> 57 then Some (n - 48)
         else if 65 \<le> n \<and> n \<le> 70 then Some (n - 55)
         else if 97 \<le> n \<and> n \<le> 102 then Some (n - 87)
         else None)"

fun percent_decode :: "string \<Rightarrow> string" where
  "percent_decode (c # a # b # cs) =
     (if c = CHR ''%''
      then (case (hex_val a, hex_val b) of
              (Some h, Some l) \<Rightarrow> char_of (16 * h + l) # percent_decode cs
            | _ \<Rightarrow> c # percent_decode (a # b # cs))
      else c # percent_decode (a # b # cs))"
| "percent_decode cs = cs"

text \<open>A page of the aggregator with one call-to-action anchor, and a response that
  ends on the aggregator.\<close>

definition wrapper_page :: node where
  "wrapper_page = Element ''[document]'' []
     [Element ''html'' [(''lang'', ''en-US'')]
        [Element ''body'' []
           [Element ''a'' [(''href'', ''https://example.com/story'')]
              [Text ''Read full article'']]]]"

definition wrapper_response :: response where
  "wrapper_response =
     \<lparr>status_error = None, content_type = Some ''text/html; charset=utf-8'',
      content_length = None, body_chunks = [''<html>wrapper</html>''], body_error = None,
      encoding = Some ''utf-8'', resp_url = ''https://news.google.com/articles/abc''\<rparr>"

text \<open>A world in which the browser resolver and the HTTP resolver do not leave the
  aggregator, every request ends on the aggregator page (the link found on it redirects
  back), and the page parses to \<open>wrapper_page\<close>.\<close>

definition wrapper_env :: env where
  "wrapper_env =
     \<lparr>check_bracketed_netloc = (\<lambda>nl. None), unquote_escaped = percent_decode,
      urljoin = (\<lambda>base u. Inr (''https://news.google.com'' @ u)),
      html_parser = (\<lambda>html_text. wrapper_page),
      trafilatura_extract = (\<lambda>html_text. Inr None),
      bytes_decode = (\<lambda>enc data. Inr data),
      decode_google_news_url = (\<lambda>u. u),
      try_google_news_redirect = (\<lambda>u t. None),
      http_get = (\<lambda>n u t. Inr wrapper_response),
      new_translator = (\<lambda>target. None),
      translate = (\<lambda>target n s. Inr s),
      iso_now = ''2026-01-01T00:00:00+00:00'', elapsed_ms = 5\<rparr>"

definition wrapper_args :: args where
  "wrapper_args =
     \<lparr>arg_url = ''https://news.google.com/articles/abc'', arg_timeout = 20,
      arg_max_bytes = 3000000, arg_debug = False, arg_target_lang = None\<rparr>"

text \<open>Responses for the fetcher: a body of six bytes in two chunks that declares three,
  a JSON document, and pages without a declared content type.\<close>

definition six_byte_response :: response where
  "six_byte_response =
     \<lparr>status_error = None, content_type = Some ''text/html'', content_length = Some ''3'',
      body_chunks = [''abc'', [], ''def''], body_error = None, encoding = None,
      resp_url = ''https://example.com/a''\<rparr>"

definition json_response :: response where
  "json_response =
     \<lparr>status_error = None, content_type = Some ''Application/JSON'', content_length = None,
      body_chunks = [''{}''], body_error = None, encoding = None,
      resp_url = ''https://example.com/a.json''\<rparr>"

definition untyped_response :: response where
  "untyped_response =
     \<lparr>status_error = None, content_type = None, content_length = None,
      body_chunks = [''%PDF-1.7''], body_error = None, encoding = None,
      resp_url = ''https://example.com/a.pdf''\<rparr>"

definition blank_typed_response :: response where
  "blank_typed_response = untyped_response\<lparr>content_type := Some []\<rparr>"

definition serving :: "response \<Rightarrow> env" where
  "serving r = wrapper_env\<lparr>http_get := (\<lambda>n u t. Inr r)\<rparr>"

text \<open>A publisher page with an \<open>article\<close> element, and the world that serves it.\<close>

definition article_page :: node where
  "article_page = Element ''[document]'' []
     [Element ''html'' [(''lang'', ''en'')]
        [Element ''head'' []
           [Element ''meta'' [(''property'', ''og:title''), (''content'', ''A story'')] [],
            Element ''meta'' [(''name'', ''author''), (''content'', ''Jo Doe'')] [],
            Element ''script'' [] [Text ''var x = 1;'']],
         Element ''body'' []
           [Element ''nav'' [] [Text ''Home''],
            Element ''article'' []
              [Element ''p'' [] [Text '' First  paragraph. ''],
               Element ''aside'' [] [Text ''Advertisement''],
               Element ''p'' [] [Text ''Second paragraph.'']],
            Element ''footer'' [] [Text ''Imprint'']]]]"

definition article_response :: response where
  "article_response =
     \<lparr>status_error = None, content_type = Some ''text/html'', content_length = None,
      body_chunks = [''<html>story</html>''], body_error = None, encoding = Some ''utf-8'',
      resp_url = ''https://example.com/story''\<rparr>"

definition article_env :: env where
  "article_env = wrapper_env\<lparr>http_get := (\<lambda>n u t. Inr article_response),
     html_parser := (\<lambda>html_text. article_page)\<rparr>"

definition article_args :: args where
  "article_args = wrapper_args\<lparr>arg_url := ''https://example.com/story''\<rparr>"




text \<open>A translator that fails on every call, one that answers with the target
  language written before the text, and a request for French.\<close>

definition failing_translator_env :: env where
  "failing_translator_env =
     article_env\<lparr>translate := (\<lambda>target n s. Inl (Other ''RequestError'' ''Request exception''))\<rparr>"

definition tagging_translator_env :: env where
  "tagging_translator_env =
     article_env\<lparr>translate := (\<lambda>target n s. Inr (target @ '':'' @ s))\<rparr>"

definition french_args :: args where
  "french_args = article_args\<lparr>arg_target_lang := Some ''fr''\<rparr>"

text \<open>The publisher page without a declared language.\<close>

definition unlabelled_page :: node where
  "unlabelled_page = Element ''[document]'' []
     [Element ''html'' []
        [Element ''head'' [] [Element ''title'' [] [Text ''A headline'']],
         Element ''body'' [] [Element ''article'' [] [Text ''a text'']]]]"

definition unlabelled_env :: env where
  "unlabelled_env = tagging_translator_env\<lparr>html_parser := (\<lambda>html_text. unlabelled_page)\<rparr>"

text \<open>A page of the aggregator whose call-to-action anchor points to a gateway host.\<close>

definition gateway_link_page :: node where
  "gateway_link_page = Element ''[document]'' []
     [Element ''body'' []
        [Element ''a'' [(''href'', ''https://www.google.com/intl/en/about'')]
           [Text ''View Full Coverage'']]]"

definition showing :: "node \<Rightarrow> env" where
  "showing page = wrapper_env\<lparr>html_parser := (\<lambda>html_text. page)\<rparr>"

text \<open>Pages for the content extractor: one without an \<open>article\<close> element and with
  containers of 800, 900 and 5 characters; one with a body only; an empty document.\<close>

definition containers_page :: node where
  "containers_page = Element ''[document]'' []
     [Element ''html'' []
        [Element ''body'' []
           [Element ''header'' [] [Element ''div'' [] [Text (replicate 1000 CHR ''h'')]],
            Element ''div'' [] [Text (replicate 800 CHR ''x'')],
            Element ''section'' [] [Text (replicate 900 CHR ''y'')],
            Element ''div'' [] [Text ''short'']]]]"

definition body_page :: node where
  "body_page = Element ''[document]'' []
     [Element ''html'' []
        [Element ''body'' []
           [Element ''nav'' [] [Text ''Home''],
            Element ''div'' [] [Text '' One ''],
            Element ''p'' [] [Text ''Two'']]]]"

definition empty_page :: node where
  "empty_page = Element ''[document]'' [] [Comment ''nothing'']"

text \<open>A world in which the specialized engine finds a text.\<close>

definition engine_env :: env where
  "engine_env = article_env\<lparr>trafilatura_extract := (\<lambda>html_text. Inr (Some '' Engine  text ''))\<rparr>"

text \<open>A page whose \<open>article\<close> element holds no text and is followed by a container of
  900 characters, and a world in which the specialized engine returns blanks.\<close>

definition empty_article_page :: node where
  "empty_article_page = Element ''[document]'' []
     [Element ''html'' []
        [Element ''body'' []
           [Element ''article'' [] [Element ''img'' [(''src'', ''a.png'')] []],
            Element ''div'' [] [Text (replicate 900 CHR ''y'')]]]]"

definition blank_engine_env :: env where
  "blank_engine_env = article_env\<lparr>trafilatura_extract := (\<lambda>html_text. Inr (Some ''  ''))\<rparr>"


section \<open>The words of the specification\<close>

text \<open>A content type of the HTML/XHTML/XML family, as the fetcher tests it.\<close>

definition html_xml_family :: "string \<Rightarrow> bool" where
  "html_xml_family ctype \<longleftrightarrow>
     sublist ''text/html'' ctype \<or> sublist ''application/xhtml+xml'' ctype
     \<or> sublist ''application/xml'' ctype"

text \<open>A gateway redirect link: a URL on a redirect-gateway host whose path is the
  redirect endpoint \<open>/url\<close>.\<close>

definition is_gateway_redirect :: "env \<Rightarrow> string \<Rightarrow> bool" where
  "is_gateway_redirect E href \<longleftrightarrow>
     (case urlparse E href of
        Inl e \<Rightarrow> False
      | Inr p \<Rightarrow> lower (netloc p) \<in> set [''www.google.com'', ''google.com'']
                 \<and> path p = ''/url'')"

text \<open>The URL-decoded value of a query parameter: the query string is cut at \<open>&\<close>; the
  parameter is present when a field \<open>name=value\<close> has a name that decodes to the name
  asked for and a value that is not empty; the first such field counts.\<close>

definition url_decode :: "env \<Rightarrow> string \<Rightarrow> string" where
  "url_decode E s = unquote E (plus_to_space s)"

definition is_param :: "env \<Rightarrow> string \<Rightarrow> string \<Rightarrow> bool" where
  "is_param E name field \<longleftrightarrow>
     CHR ''='' \<in> set field \<and> url_decode E (fst (split1 CHR ''='' field)) = name
     \<and> snd (split1 CHR ''='' field) \<noteq> []"

definition query_param :: "env \<Rightarrow> string \<Rightarrow> string \<Rightarrow> string option" where
  "query_param E name qs =
     map_option (\<lambda>field. url_decode E (snd (split1 CHR ''='' field)))
       (List.find (is_param E name) (split CHR ''&'' qs))"

text \<open>Off-aggregator, in the words of the glossary: a host different from every known
  aggregator or gateway domain (the hosts of the wrapper detector).\<close>

definition aggregator_hosts :: "string list" where
  "aggregator_hosts = [''news.google.com'', ''www.google.com'', ''google.com'']"

definition off_aggregator :: "env \<Rightarrow> string \<Rightarrow> bool" where
  "off_aggregator E href \<longleftrightarrow>
     (case urlparse E href of
        Inl e \<Rightarrow> False
      | Inr p \<Rightarrow> netloc p \<noteq> [] \<and> lower (netloc p) \<notin> set aggregator_hosts)"

text \<open>The specialized engine yields nothing: it returns \<open>None\<close> or an empty string, or
  it raises.\<close>

definition engine_yields_nothing :: "env \<Rightarrow> string \<Rightarrow> bool" where
  "engine_yields_nothing E html_text \<longleftrightarrow>
     (case trafilatura_extract E html_text of
        Inr (Some t) \<Rightarrow> t = []
      | Inr None \<Rightarrow> True
      | Inl e \<Rightarrow> True)"

text \<open>The tree without scripts, styles, \<open>noscript\<close>, header, footer, nav and aside; its
  \<open>main\<close>, \<open>div\<close> and \<open>section\<close> elements; the normalized text of an element.\<close>

definition content_tree :: "node \<Rightarrow> node" where
  "content_tree soup =
     decompose [''script'', ''style'', ''noscript'', ''header'', ''footer'', ''nav'', ''aside''] soup"

definition containers :: "node \<Rightarrow> node list" where
  "containers soup = find_all [''main'', ''div'', ''section''] (content_tree soup)"

definition normalized_text :: "node \<Rightarrow> string" where
  "normalized_text n = normalize_space (get_text [NL] n)"

text \<open>
  First-non-empty-wins, in the words of the specification: each strategy of the chain
  yields a text, the empty string when it yields nothing, and the result is the first
  text of the chain that is not empty. The strategies are the specialized engine, the
  \<open>article\<close> element, the longest container of at least 800 characters, and the body.
\<close>

definition longest :: "string list \<Rightarrow> string" where
  "longest ts = foldl (\<lambda>best t. if length best < length t then t else best) [] ts"

definition strategy_texts :: "env \<Rightarrow> node \<Rightarrow> string \<Rightarrow> string list" where
  "strategy_texts E soup html_text =
     [case trafilatura_extract E html_text of
        Inr (Some t) \<Rightarrow> normalize_space t
      | Inr None \<Rightarrow> []
      | Inl e \<Rightarrow> [],
      case soup_find ''article'' (content_tree soup) of
        Some article \<Rightarrow> normalized_text article
      | None \<Rightarrow> [],
      longest (filter (\<lambda>t. 800 \<le> length t) (map normalized_text (containers soup))),
      case soup_find ''body'' (content_tree soup) of
        Some body \<Rightarrow> normalized_text body
      | None \<Rightarrow> []]"

definition first_non_empty :: "string list \<Rightarrow> string" where
  "first_non_empty ts = (case List.find (\<lambda>t. t \<noteq> []) ts of Some t \<Rightarrow> t | None \<Rightarrow> [])"


section \<open>Normalization is idempotent\<close>

lemma char_consts_distinct: "NL \<noteq> SP" "NL \<noteq> TAB" "SP \<noteq> TAB"
  by (simp_all add: NL_def SP_def TAB_def)


lemma sub_hspace_collapsed: "hspace_collapsed (sub_hspace s)"
proof (induction s rule: sub_hspace.induct)
  case 1
  show ?case by simp
next
  case (2 c cs)
  show ?case
  proof (cases "hspace c")
    case True
    define r where "r = dropWhile hspace cs"
    have nh: "r = [] \<or> \<not> hspace (hd r)"
      unfolding r_def using hd_dropWhile[of hspace cs] by blast
    from True 2 have ih: "hspace_collapsed (sub_hspace r)" by (simp add: r_def)
    from True have eq: "sub_hspace (c # cs) = SP # sub_hspace r" by (simp add: r_def)
    show ?thesis
    proof (cases r)
      case Nil
      with eq show ?thesis using char_consts_distinct by simp
    next
      case (Cons d ds)
      with nh have "\<not> hspace d" by simp
      with eq Cons ih show ?thesis using char_consts_distinct
        by (simp add: hspace_def)
    qed
  next
    case False
    with 2 have ih: "hspace_collapsed (sub_hspace cs)" by simp
    from False have c: "c \<noteq> TAB" "c \<noteq> SP" by (auto simp: hspace_def)
    show ?thesis
    proof (cases "sub_hspace cs")
      case Nil
      with False c show ?thesis by simp
    next
      case (Cons d ds)
      with False c ih show ?thesis by simp
    qed
  qed
qed

lemma sub_hspace_fixed: "hspace_collapsed s \<Longrightarrow> sub_hspace s = s"
proof (induction s rule: hspace_collapsed.induct)
  case 1
  show ?case by simp
next
  case (2 c)
  then show ?case by (simp add: hspace_def)
next
  case (3 c d cs)
  then show ?case by (auto simp: hspace_def)
qed

lemma hspace_collapsed_append:
  "hspace_collapsed (a @ b) \<Longrightarrow> hspace_collapsed a \<and> hspace_collapsed b"
proof (induction a rule: hspace_collapsed.induct)
  case 1
  then show ?case by simp
next
  case (2 c)
  then show ?case by (cases b) auto
next
  case (3 c d cs)
  then show ?case by auto
qed

lemma hspace_collapsed_Cons:
  "hspace_collapsed (c # cs) \<Longrightarrow> hspace_collapsed cs"
  using hspace_collapsed_append[of "[c]" cs] by simp

lemma sub_newlines_hd: "s \<noteq> [] \<Longrightarrow> sub_newlines s \<noteq> [] \<and> hd (sub_newlines s) = hd s"
  by (cases s) auto

lemma hspace_collapsed_dropWhile:
  "hspace_collapsed s \<Longrightarrow> hspace_collapsed (dropWhile P s)"
  using hspace_collapsed_append[of "takeWhile P s" "dropWhile P s"] by simp

lemma sub_newlines_hspace_collapsed:
  "hspace_collapsed s \<Longrightarrow> hspace_collapsed (sub_newlines s)"
proof (induction s rule: sub_newlines.induct)
  case 1
  show ?case by simp
next
  case (2 c cs)
  show ?case
  proof (cases "c = NL \<and> take 2 cs = [NL, NL]")
    case True
    define r where "r = dropWhile (\<lambda>x. x = NL) cs"
    from 2(3) have "hspace_collapsed cs" by (rule hspace_collapsed_Cons)
    then have "hspace_collapsed r" unfolding r_def by (rule hspace_collapsed_dropWhile)
    with True 2 have ih: "hspace_collapsed (sub_newlines r)" by (simp add: r_def)
    from True have eq: "sub_newlines (c # cs) = NL # NL # sub_newlines r"
      by (simp add: r_def)
    have nn: "r = [] \<or> hd r \<noteq> NL"
      unfolding r_def using hd_dropWhile[of "\<lambda>x. x = NL" cs] by blast
    show ?thesis
    proof (cases r)
      case Nil
      with eq show ?thesis using char_consts_distinct by simp
    next
      case (Cons d ds)
      then have "sub_newlines r \<noteq> [] \<and> hd (sub_newlines r) = d"
        using sub_newlines_hd[of r] by simp
      then obtain es where es: "sub_newlines r = d # es"
        by (cases "sub_newlines r") auto
      with eq ih show ?thesis using char_consts_distinct by simp
    qed
  next
    case False
    from 2(3) have cs: "hspace_collapsed cs" by (rule hspace_collapsed_Cons)
    with False 2 have ih: "hspace_collapsed (sub_newlines cs)" by simp
    show ?thesis
    proof (cases cs)
      case Nil
      with False 2(3) show ?thesis by simp
    next
      case (Cons d ds)
      then have "sub_newlines cs \<noteq> [] \<and> hd (sub_newlines cs) = d"
        using sub_newlines_hd[of cs] by simp
      then obtain es where es: "sub_newlines cs = d # es" by (cases "sub_newlines cs") auto
      from 2(3) Cons have cd: "c \<noteq> TAB \<and> \<not> (c = SP \<and> d = SP)" by simp
      from False have "sub_newlines (c # cs) = c # sub_newlines cs" by auto
      with cd es ih show ?thesis by simp
    qed
  qed
qed


lemma sub_newlines_collapsed: "newlines_collapsed (sub_newlines s)"
proof (induction s rule: sub_newlines.induct)
  case 1
  show ?case by simp
next
  case (2 c cs)
  show ?case
  proof (cases "c = NL \<and> take 2 cs = [NL, NL]")
    case True
    define r where "r = dropWhile (\<lambda>x. x = NL) cs"
    from True 2 have ih: "newlines_collapsed (sub_newlines r)" by (simp add: r_def)
    from True have eq: "sub_newlines (c # cs) = NL # NL # sub_newlines r"
      by (simp add: r_def)
    have nn: "r = [] \<or> hd r \<noteq> NL"
      unfolding r_def using hd_dropWhile[of "\<lambda>x. x = NL" cs] by blast
    show ?thesis
    proof (cases r)
      case Nil
      with eq show ?thesis by simp
    next
      case (Cons d ds)
      then have "sub_newlines r \<noteq> [] \<and> hd (sub_newlines r) = d"
        using sub_newlines_hd[of r] by simp
      then obtain es where es: "sub_newlines r = d # es"
        by (cases "sub_newlines r") auto
      from nn Cons have "d \<noteq> NL" by simp
      with eq es ih show ?thesis by (cases es) simp_all
    qed
  next
    case False
    with 2 have ih: "newlines_collapsed (sub_newlines cs)" by simp
    from False have eq: "sub_newlines (c # cs) = c # sub_newlines cs" by auto
    show ?thesis
    proof (cases cs)
      case Nil
      with eq show ?thesis by simp
    next
      case c1: (Cons d ds)
      show ?thesis
      proof (cases ds)
        case Nil
        with c1 eq show ?thesis by simp
      next
        case c2: (Cons e es)
        from c1 have "sub_newlines cs \<noteq> [] \<and> hd (sub_newlines cs) = d"
          using sub_newlines_hd[of cs] by simp
        then obtain ts where ts: "sub_newlines cs = d # ts"
          by (cases "sub_newlines cs") auto
        show ?thesis
        proof (cases "d = NL \<and> take 2 ds = [NL, NL]")
          case True
          with False c1 c2 have "c \<noteq> NL" by auto
          with eq ts ih show ?thesis by (cases ts) simp_all
        next
          case F2: False
          then have "sub_newlines (d # ds) = d # sub_newlines ds" by auto
          moreover from c2 have "sub_newlines ds \<noteq> [] \<and> hd (sub_newlines ds) = e"
            using sub_newlines_hd[of ds] by simp
          then obtain us where "sub_newlines ds = e # us"
            by (cases "sub_newlines ds") auto
          ultimately have ts2: "sub_newlines cs = d # e # us" using c1 by simp
          from False c1 c2 have "\<not> (c = NL \<and> d = NL \<and> e = NL)" by auto
          with eq ts2 ih show ?thesis by simp
        qed
      qed
    qed
  qed
qed

lemma sub_newlines_fixed: "newlines_collapsed s \<Longrightarrow> sub_newlines s = s"
proof (induction s rule: sub_newlines.induct)
  case 1
  show ?case by simp
next
  case (2 c cs)
  have nc: "\<not> (c = NL \<and> take 2 cs = [NL, NL])"
  proof
    assume a: "c = NL \<and> take 2 cs = [NL, NL]"
    then obtain ds where "cs = NL # NL # ds"
      by (cases cs; cases "tl cs") auto
    with a 2(3) show False by simp
  qed
  have "newlines_collapsed cs"
    using 2(3) by (cases cs; cases "tl cs") auto
  with nc 2 have "sub_newlines cs = cs" by auto
  with nc show ?case by auto
qed

lemma newlines_collapsed_tl: "newlines_collapsed (x # ys) \<Longrightarrow> newlines_collapsed ys"
  by (cases ys; cases "tl ys") auto

lemma newlines_collapsed_append:
  "newlines_collapsed (a @ b) \<Longrightarrow> newlines_collapsed a \<and> newlines_collapsed b"
proof (induction a rule: newlines_collapsed.induct)
  case 1
  then show ?case by simp
next
  case (2 a)
  then show ?case using newlines_collapsed_tl[of a b] by simp
next
  case (3 a c)
  then show ?case
    using newlines_collapsed_tl[of c b] newlines_collapsed_tl[of a "c # b"] by simp
next
  case (4 a b c cs)
  then show ?case by auto
qed

lemma rstrip_prefix: "\<exists>t. s = rstrip s @ t"
proof -
  have "rstrip s @ rev (takeWhile isspace (rev s))
      = rev (takeWhile isspace (rev s) @ dropWhile isspace (rev s))"
    by (simp only: rstrip_def rev_append)
  also have "\<dots> = s"
    by (simp only: takeWhile_dropWhile_id rev_rev_ident)
  finally have "s = rstrip s @ rev (takeWhile isspace (rev s))" by simp
  then show ?thesis ..
qed

lemma lstrip_suffix: "\<exists>t. s = t @ lstrip s"
proof -
  have "s = takeWhile isspace s @ lstrip s" by (simp add: lstrip_def)
  then show ?thesis ..
qed

lemma lstrip_hd: "lstrip s = [] \<or> \<not> isspace (hd (lstrip s))"
  unfolding lstrip_def using hd_dropWhile[of isspace s] by blast

lemma rstrip_last: "rstrip s = [] \<or> \<not> isspace (last (rstrip s))"
proof (cases "rstrip s = []")
  case True
  then show ?thesis by simp
next
  case False
  then have ne: "dropWhile isspace (rev s) \<noteq> []" by (simp add: rstrip_def)
  then have "\<not> isspace (hd (dropWhile isspace (rev s)))" by (rule hd_dropWhile)
  with ne show ?thesis by (simp add: rstrip_def last_rev)
qed

lemma lstrip_fixed: "s = [] \<or> \<not> isspace (hd s) \<Longrightarrow> lstrip s = s"
  by (cases s) (auto simp: lstrip_def)

lemma rstrip_fixed: "s = [] \<or> \<not> isspace (last s) \<Longrightarrow> rstrip s = s"
proof (cases "s = []")
  case True
  then show ?thesis by (simp add: rstrip_def)
next
  case False
  assume "s = [] \<or> \<not> isspace (last s)"
  with False have "\<not> isspace (hd (rev s))" by (simp add: hd_rev)
  moreover from False have "rev s \<noteq> []" by simp
  ultimately have "dropWhile isspace (rev s) = rev s" by (cases "rev s") auto
  then show ?thesis by (simp add: rstrip_def)
qed

lemma strip_stripped: "stripped (strip s)"
proof (cases "strip s = []")
  case True
  then show ?thesis by (simp add: stripped_def)
next
  case False
  obtain t where t: "lstrip s = strip s @ t"
    using rstrip_prefix[of "lstrip s"] by (auto simp: strip_def)
  with False have "hd (strip s) = hd (lstrip s)" by (metis hd_append2)
  moreover from t False have "lstrip s \<noteq> []" by auto
  ultimately have "\<not> isspace (hd (strip s))" using lstrip_hd[of s] by simp
  moreover have "\<not> isspace (last (strip s))"
    using False rstrip_last[of "lstrip s"] by (simp add: strip_def)
  ultimately show ?thesis by (simp add: stripped_def)
qed

lemma strip_fixed: "stripped s \<Longrightarrow> strip s = s"
  unfolding stripped_def strip_def
  by (metis lstrip_fixed rstrip_fixed)

lemma strip_parts: "\<exists>a b. s = a @ strip s @ b"
proof -
  obtain a where a: "s = a @ lstrip s" using lstrip_suffix by blast
  obtain b where b: "lstrip s = strip s @ b"
    using rstrip_prefix[of "lstrip s"] by (auto simp: strip_def)
  from a b have "s = a @ strip s @ b" by simp
  then show ?thesis by blast
qed

lemma normalize_space_shape:
  "hspace_collapsed (normalize_space s) \<and> newlines_collapsed (normalize_space s)
     \<and> stripped (normalize_space s)"
proof -
  let ?m = "sub_newlines (sub_hspace s)"
  obtain a b where ab: "?m = a @ strip ?m @ b" using strip_parts by blast
  have "hspace_collapsed ?m"
    by (rule sub_newlines_hspace_collapsed) (rule sub_hspace_collapsed)
  with ab have "hspace_collapsed (strip ?m)"
    by (metis hspace_collapsed_append)
  moreover have "newlines_collapsed ?m" by (rule sub_newlines_collapsed)
  with ab have "newlines_collapsed (strip ?m)"
    by (metis newlines_collapsed_append)
  ultimately show ?thesis
    by (simp add: normalize_space_def strip_stripped)
qed

text \<open>
  Claim C7. Normalizing a string (runs of spaces and tabs collapsed to one space, three
  or more consecutive newlines collapsed to two, whitespace trimmed at both ends) and
  normalizing the result again gives the same string: \<open>normalize_space\<close> is idempotent
  on every string.
\<close>

theorem normalize_space_idempotent:
  "normalize_space (normalize_space s) = normalize_space s"
proof -
  let ?r = "normalize_space s"
  have "sub_hspace ?r = ?r"
    using normalize_space_shape by (simp add: sub_hspace_fixed)
  moreover have "sub_newlines ?r = ?r"
    using normalize_space_shape by (simp add: sub_newlines_fixed)
  moreover have "strip ?r = ?r"
    using normalize_space_shape by (simp add: strip_fixed)
  ultimately show ?thesis
    by (simp add: normalize_space_def[of ?r])
qed

theorem normalize_space_idempotent_witness:
  "normalize_space (''  a '' @ [TAB, SP] @ ''b'' @ [NL, NL, NL, NL] @ ''c '' @ [NL])
     = ''a b'' @ [NL, NL] @ ''c''
   \<and> normalize_space (''a b'' @ [NL, NL] @ ''c'') = ''a b'' @ [NL, NL] @ ''c''"
proof -
  have e: "normalize_space (''  a '' @ [TAB, SP] @ ''b'' @ [NL, NL, NL, NL] @ ''c '' @ [NL])
     = ''a b'' @ [NL, NL] @ ''c''"
    by (simp add: normalize_space_def strip_def lstrip_def rstrip_def isspace_def hspace_def
        NL_def SP_def TAB_def)
  show ?thesis
    using normalize_space_idempotent
      [of "''  a '' @ [TAB, SP] @ ''b'' @ [NL, NL, NL, NL] @ ''c '' @ [NL]"]
    unfolding e by (simp add: e)
qed

section \<open>The fetcher: size cap and content type\<close>

lemma read_chunks_invariant:
  "read_chunks max_bytes cs (chunks, total_bytes) = Inr (chunks', total_bytes') \<Longrightarrow>
   total_bytes = int (length (concat chunks)) \<Longrightarrow> total_bytes \<le> max_bytes \<Longrightarrow>
   total_bytes' = int (length (concat chunks')) \<and> total_bytes' \<le> max_bytes
     \<and> total_bytes' = total_bytes + int (length (concat cs))"
proof (induction cs arbitrary: chunks total_bytes)
  case Nil
  then show ?case by auto
next
  case (Cons c cs)
  show ?case
  proof (cases "c = []")
    case True
    with Cons show ?thesis by simp
  next
    case False
    with Cons.prems(1) have le: "total_bytes + int (length c) \<le> max_bytes"
      by (simp split: if_splits)
    with False Cons.prems(1)
    have r: "read_chunks max_bytes cs (chunks @ [c], total_bytes + int (length c))
        = Inr (chunks', total_bytes')"
      by simp
    have "total_bytes + int (length c) = int (length (concat (chunks @ [c])))"
      using Cons.prems(2) by simp
    from Cons.IH[OF r this le] show ?thesis by simp
  qed
qed

lemma read_chunks_too_large:
  "total_bytes + int (length (concat cs)) > max_bytes \<Longrightarrow> total_bytes \<le> max_bytes \<Longrightarrow>
   read_chunks max_bytes cs (chunks, total_bytes) = Inl (RuntimeError ''response too large'')"
proof (induction cs arbitrary: chunks total_bytes)
  case Nil
  then show ?case by simp
next
  case (Cons c cs)
  show ?case
  proof (cases "c = [] \<or> total_bytes + int (length c) \<le> max_bytes")
    case True
    then show ?thesis using Cons.IH[of "total_bytes + int (length c)"] Cons.prems
      by (auto simp: add.assoc)
  next
    case False
    then show ?thesis by simp
  qed
qed

text \<open>
  Claim C2. A response that passes the status check and the content-type check and whose
  body is longer than \<open>max_bytes\<close> (a byte count, so not negative) makes \<open>fetch_html\<close>
  raise the error "response too large", whatever length the response declares. At every
  point of the streaming, that is after any number of chunks read without the error, the
  chunks kept hold at most \<open>max_bytes\<close> bytes, and together with the chunk that has
  just arrived (of at most 64 KiB) at most \<open>max_bytes\<close> plus one chunk size.
\<close>

theorem fetch_html_too_large:
  fixes r :: response
  assumes ok: "status_error r = None" "\<not> unsupported_ctype (ctype_of r)"
    and mb: "0 \<le> max_bytes"
    and big: "int (length (concat (body_chunks r))) > max_bytes"
  shows "(\<forall>(E::env) declared. http_get E n u timeout_s = Inr (r\<lparr>content_length := declared\<rparr>)
            \<longrightarrow> fetch_html E n u timeout_s max_bytes = Inl (RuntimeError ''response too large''))
       \<and> (\<forall>ps chunks total_bytes. prefix ps (body_chunks r)
            \<and> read_chunks max_bytes ps ([], 0) = Inr (chunks, total_bytes)
            \<longrightarrow> int (length (concat chunks)) \<le> max_bytes
              \<and> int (length (concat chunks)) \<le> max_bytes + chunk_size)
       \<and> (\<forall>ps chunk chunks total_bytes. prefix (ps @ [chunk]) (body_chunks r)
            \<and> int (length chunk) \<le> chunk_size
            \<and> read_chunks max_bytes ps ([], 0) = Inr (chunks, total_bytes)
            \<longrightarrow> int (length (concat chunks)) + int (length chunk) \<le> max_bytes + chunk_size)"
proof (intro conjI allI impI)
  fix E :: env and declared
  assume get: "http_get E n u timeout_s = Inr (r\<lparr>content_length := declared\<rparr>)"
  have "read_chunks max_bytes (body_chunks r) ([], 0) = Inl (RuntimeError ''response too large'')"
    using read_chunks_too_large[of max_bytes 0 "body_chunks r" "[]"] mb big by simp
  then show "fetch_html E n u timeout_s max_bytes = Inl (RuntimeError ''response too large'')"
    using ok get by (simp add: fetch_html_def ctype_of_def)
next
  fix ps chunks total_bytes
  assume a: "prefix ps (body_chunks r) \<and> read_chunks max_bytes ps ([], 0) = Inr (chunks, total_bytes)"
  then have "total_bytes = int (length (concat chunks)) \<and> total_bytes \<le> max_bytes"
    using read_chunks_invariant[of max_bytes ps "[]" 0 chunks total_bytes] mb by simp
  then show "int (length (concat chunks)) \<le> max_bytes" by simp
  then show "int (length (concat chunks)) \<le> max_bytes + chunk_size"
    by (simp add: chunk_size_def)
next
  fix ps chunk chunks total_bytes
  assume a: "prefix (ps @ [chunk]) (body_chunks r) \<and> int (length chunk) \<le> chunk_size
     \<and> read_chunks max_bytes ps ([], 0) = Inr (chunks, total_bytes)"
  then have "total_bytes = int (length (concat chunks)) \<and> total_bytes \<le> max_bytes"
    using read_chunks_invariant[of max_bytes ps "[]" 0 chunks total_bytes] mb by simp
  with a show "int (length (concat chunks)) + int (length chunk) \<le> max_bytes + chunk_size"
    by simp
qed

theorem fetch_html_too_large_witness:
  "status_error six_byte_response = None
   \<and> \<not> unsupported_ctype (ctype_of six_byte_response)
   \<and> (0::int) \<le> 5
   \<and> int (length (concat (body_chunks six_byte_response))) > 5
   \<and> content_length six_byte_response = Some ''3''
   \<and> fetch_html (serving six_byte_response) 0 ''https://example.com/a'' 20 5
       = Inl (RuntimeError ''response too large'')
   \<and> prefix [''abc'', []] (body_chunks six_byte_response)
   \<and> read_chunks 5 [''abc'', []] ([], 0) = Inr ([''abc''], 3)
   \<and> int (length (concat [''abc''])) \<le> 5 + chunk_size
   \<and> int (length (concat [''abc''])) + int (length ''def'') \<le> 5 + chunk_size"
proof -
  have h1: "status_error six_byte_response = None" by (simp add: six_byte_response_def)
  have h2: "\<not> unsupported_ctype (ctype_of six_byte_response)" by code_simp
  have h3: "(0::int) \<le> 5" by simp
  have h4: "int (length (concat (body_chunks six_byte_response))) > 5"
    by (simp add: six_byte_response_def)
  have g: "http_get (serving six_byte_response) 0 ''https://example.com/a'' 20
      = Inr (six_byte_response\<lparr>content_length := Some ''3''\<rparr>)"
    by (simp add: serving_def six_byte_response_def)
  have p1: "prefix [''abc'', []] (body_chunks six_byte_response)"
    by (simp add: six_byte_response_def)
  have p2: "prefix ([''abc'', []] @ [''def'']) (body_chunks six_byte_response)"
    by (simp add: six_byte_response_def)
  have rd: "read_chunks 5 [''abc'', []] ([], 0) = Inr ([''abc''], 3)" by simp
  have c: "int (length ''def'') \<le> chunk_size" by (simp add: chunk_size_def)
  note t = fetch_html_too_large[OF h1 h2 h3 h4, of 0 "''https://example.com/a''" 20]
  from t have "fetch_html (serving six_byte_response) 0 ''https://example.com/a'' 20 5
       = Inl (RuntimeError ''response too large'')"
    using g by blast
  moreover from t p1 rd have "int (length (concat [''abc''])) \<le> 5 + chunk_size"
    by blast
  moreover from t p2 rd c
  have "int (length (concat [''abc''])) + int (length ''def'') \<le> 5 + chunk_size"
    by blast
  ultimately show ?thesis
    using h1 h2 h3 h4 p1 rd by (simp add: six_byte_response_def)
qed

text \<open>
  Claim C3, as amended. A response that passes the status check and whose declared
  content type, in lower case, is not empty and contains none of \<open>text/html\<close>,
  \<open>application/xhtml+xml\<close> and \<open>application/xml\<close> makes \<open>fetch_html\<close> raise the error
  "unsupported content-type"; and when \<open>fetch_html\<close> returns, the content type it
  returns is the declared one in lower case, which is empty (none declared, or an empty
  one) or contains one of the three.
\<close>

theorem fetch_html_unsupported_content_type:
  fixes E :: env and r :: response
  assumes get: "http_get E n u timeout_s = Inr r"
    and ok: "status_error r = None"
  shows "(ctype_of r \<noteq> [] \<and> \<not> html_xml_family (ctype_of r)
            \<longrightarrow> fetch_html E n u timeout_s max_bytes
                  = Inl (RuntimeError (''unsupported content-type: '' @ ctype_of r)))
       \<and> (\<forall>html_text final ctype.
            fetch_html E n u timeout_s max_bytes = Inr (html_text, final, ctype)
            \<longrightarrow> ctype = ctype_of r \<and> (ctype = [] \<or> html_xml_family ctype))"
proof (intro conjI allI impI)
  assume "ctype_of r \<noteq> [] \<and> \<not> html_xml_family (ctype_of r)"
  then have "unsupported_ctype (ctype_of r)"
    by (simp add: unsupported_ctype_def html_xml_family_def)
  with get ok show "fetch_html E n u timeout_s max_bytes
      = Inl (RuntimeError (''unsupported content-type: '' @ ctype_of r))"
    by (simp add: fetch_html_def)
next
  fix html_text final ctype
  assume r: "fetch_html E n u timeout_s max_bytes = Inr (html_text, final, ctype)"
  with get ok have s: "\<not> unsupported_ctype (ctype_of r)"
    by (auto simp: fetch_html_def split: if_splits)
  from r get ok s show c: "ctype = ctype_of r"
    by (auto simp: fetch_html_def split: sum.splits option.splits prod.splits)
  from s c show "ctype = [] \<or> html_xml_family ctype"
    by (auto simp: unsupported_ctype_def html_xml_family_def)
qed

theorem fetch_html_unsupported_content_type_witness:
  "http_get (serving json_response) 0 ''https://example.com/a.json'' 20 = Inr json_response
   \<and> status_error json_response = None
   \<and> ctype_of json_response = ''application/json''
   \<and> \<not> html_xml_family (ctype_of json_response)
   \<and> fetch_html (serving json_response) 0 ''https://example.com/a.json'' 20 3000000
       = Inl (RuntimeError ''unsupported content-type: application/json'')
   \<and> fetch_html (serving six_byte_response) 0 ''https://example.com/a'' 20 3000000
       = Inr (''abcdef'', ''https://example.com/a'', ''text/html'')
   \<and> html_xml_family ''text/html''"
proof -
  have g: "http_get (serving json_response) 0 ''https://example.com/a.json'' 20 = Inr json_response"
    by (simp add: serving_def)
  have ok: "status_error json_response = None" by (simp add: json_response_def)
  have c: "ctype_of json_response = ''application/json''" by code_simp
  have nf: "\<not> html_xml_family (ctype_of json_response)" by code_simp
  have g2: "http_get (serving six_byte_response) 0 ''https://example.com/a'' 20 = Inr six_byte_response"
    by (simp add: serving_def)
  have ok2: "status_error six_byte_response = None" by (simp add: six_byte_response_def)
  have f2: "fetch_html (serving six_byte_response) 0 ''https://example.com/a'' 20 3000000
       = Inr (''abcdef'', ''https://example.com/a'', ''text/html'')"
    by code_simp
  from fetch_html_unsupported_content_type[OF g ok, of 3000000] c nf
  have "fetch_html (serving json_response) 0 ''https://example.com/a.json'' 20 3000000
       = Inl (RuntimeError ''unsupported content-type: application/json'')"
    by simp
  moreover from fetch_html_unsupported_content_type[OF g2 ok2, of 3000000] f2
  have "html_xml_family ''text/html''" by auto
  ultimately show ?thesis using g ok c nf f2 by simp
qed

text \<open>
  Claim C3 as it is written fails: a response that declares no content type, or an empty
  one, is not of the HTML/XHTML/XML family, and \<open>fetch_html\<close> returns its body.
\<close>

theorem fetch_html_accepts_undeclared_content_type:
  "content_type untyped_response = None
   \<and> \<not> html_xml_family (ctype_of untyped_response)
   \<and> fetch_html (serving untyped_response) 0 ''https://example.com/a.pdf'' 20 3000000
       = Inr (''%PDF-1.7'', ''https://example.com/a.pdf'', [])
   \<and> content_type blank_typed_response = Some []
   \<and> \<not> html_xml_family (ctype_of blank_typed_response)
   \<and> fetch_html (serving blank_typed_response) 0 ''https://example.com/a.pdf'' 20 3000000
       = Inr (''%PDF-1.7'', ''https://example.com/a.pdf'', [])"
  by code_simp


section \<open>The exit status\<close>





section \<open>The unwrap loop\<close>

lemma unwrap_loop_count:
  "unwrap_loop E A original_url st = Inr (html_text, final, resolved, k)
   \<Longrightarrow> snd (snd (snd st)) \<le> max_unwrap_attempts \<Longrightarrow> k \<le> max_unwrap_attempts"
proof (induction E A original_url st rule: unwrap_loop.induct)
  case (1 E A original_url html_text0 final_url0 resolved_url0 unwrap_count)
  show ?case
  proof (cases "(is_google_news_wrapper E final_url0 \<or> is_google_news_wrapper E original_url)
          \<and> unwrap_count < max_unwrap_attempts")
    case True
    with "1.prems"(1) obtain pub h f c where
      p: "extract_publisher_url_from_google_news E html_text0 final_url0 = Inr (Some pub)"
        "pub \<noteq> []"
        "fetch_html E (Suc unwrap_count) pub (arg_timeout A) (arg_max_bytes A) = Inr (h, f, c)"
      by (auto simp: unwrap_loop.simps split: sum.splits option.splits if_splits)
    with True "1.prems"(1)
    have r: "unwrap_loop E A original_url (h, f, f, Suc unwrap_count)
        = Inr (html_text, final, resolved, k)"
      by (simp add: unwrap_loop.simps)
    from True have "Suc unwrap_count \<le> max_unwrap_attempts" by simp
    with "1.IH"[OF True p(1) _ p(2) p(3)] r show ?thesis by simp
  next
    case False
    with "1.prems" show ?thesis by (auto simp: unwrap_loop.simps)
  qed
qed

lemma unwrap_loop_no_link:
  "(is_google_news_wrapper E final_url0 \<or> is_google_news_wrapper E original_url)
   \<Longrightarrow> extract_publisher_url_from_google_news E html_text final_url0 = Inr None
   \<Longrightarrow> unwrap_loop E A original_url (html_text, final_url0, resolved, 0) = Inl unwrap_error"
  by (simp add: unwrap_loop.simps max_unwrap_attempts_def)

text \<open>
  Claim C1. The run below starts from a wrapper URL; each of the three fetches ends on
  the wrapper page, on which the extractor finds a link. After the second re-fetch the
  loop ends without an error, although the final URL is still a wrapper, and \<open>main\<close>
  returns the text of the wrapper page in a success payload with exit status 0.
\<close>

theorem unwrap_exhausted_returns_wrapper_page:
  "is_google_news_wrapper wrapper_env (arg_url wrapper_args)
   \<and> unwrap_loop wrapper_env wrapper_args ''https://news.google.com/articles/abc''
        (''<html>wrapper</html>'', ''https://news.google.com/articles/abc'',
         ''https://news.google.com/articles/abc'', 0)
       = Inr (''<html>wrapper</html>'', ''https://news.google.com/articles/abc'',
              ''https://news.google.com/articles/abc'', 2)
   \<and> main wrapper_env wrapper_args
       = (Success 5
            \<lparr>data_url = ''https://news.google.com/articles/abc'',
             data_resolved_url = ''https://news.google.com/articles/abc'',
             data_final_url = ''https://news.google.com/articles/abc'',
             data_site = ''news.google.com'', data_title = [], data_author = None,
             data_published_at = None, data_lang = Some ''en'',
             data_text = ''Read full article'',
             data_fetched_at = ''2026-01-01T00:00:00+00:00''\<rparr>, 0)
   \<and> is_google_news_wrapper wrapper_env ''https://news.google.com/articles/abc''"
  by code_simp


section \<open>The translation stage\<close>

lemma translate_chunks_fails_iff:
  "(\<exists>e. translate_chunks E target n cs = Inl e)
   \<longleftrightarrow> (\<exists>i < length cs. \<exists>e. translate E target (n + i) (cs ! i) = Inl e)"
proof (induction cs arbitrary: n)
  case Nil
  show ?case by simp
next
  case (Cons c cs)
  show ?case
  proof (cases "translate E target n c")
    case (Inl e)
    then have "translate_chunks E target n (c # cs) = Inl e" by simp
    moreover from Inl have "\<exists>i < length (c # cs). \<exists>e. translate E target (n + i) ((c # cs) ! i) = Inl e"
      by (intro exI[of _ 0]) simp
    ultimately show ?thesis by blast
  next
    case (Inr t)
    then have "(\<exists>e. translate_chunks E target n (c # cs) = Inl e)
        \<longleftrightarrow> (\<exists>e. translate_chunks E target (Suc n) cs = Inl e)"
      by (simp split: sum.splits)
    also have "\<dots> \<longleftrightarrow> (\<exists>i < length cs. \<exists>e. translate E target (Suc n + i) (cs ! i) = Inl e)"
      by (rule Cons.IH)
    also have "\<dots> \<longleftrightarrow> (\<exists>i < length (c # cs). \<exists>e. translate E target (n + i) ((c # cs) ! i) = Inl e)"
    proof
      assume "\<exists>i < length cs. \<exists>e. translate E target (Suc n + i) (cs ! i) = Inl e"
      then obtain i e where "i < length cs" "translate E target (Suc n + i) (cs ! i) = Inl e"
        by blast
      then have "Suc i < length (c # cs) \<and> translate E target (n + Suc i) ((c # cs) ! Suc i) = Inl e"
        by simp
      then show "\<exists>i < length (c # cs). \<exists>e. translate E target (n + i) ((c # cs) ! i) = Inl e"
        by blast
    next
      assume "\<exists>i < length (c # cs). \<exists>e. translate E target (n + i) ((c # cs) ! i) = Inl e"
      then obtain i e where i: "i < length (c # cs)"
          "translate E target (n + i) ((c # cs) ! i) = Inl e"
        by blast
      with Inr obtain j where "i = Suc j" by (cases i) auto
      with i have "j < length cs \<and> translate E target (Suc n + j) (cs ! j) = Inl e" by simp
      then show "\<exists>i < length cs. \<exists>e. translate E target (Suc n + i) (cs ! i) = Inl e"
        by blast
    qed
    finally show ?thesis .
  qed
qed

lemma check_netloc_translator_irrelevant:
  "check_netloc (E\<lparr>translate := tr, new_translator := nt\<rparr>) nl = check_netloc E nl"
  by (simp add: check_netloc_def)

lemma urlparse_translator_irrelevant:
  "urlparse (E\<lparr>translate := tr, new_translator := nt\<rparr>) u = urlparse E u"
  by (simp add: urlparse_def urlsplit_def check_netloc_translator_irrelevant)

lemma extract_main_text_translator_irrelevant:
  "extract_main_text (E\<lparr>translate := tr, new_translator := nt\<rparr>) soup html_text
     = extract_main_text E soup html_text"
  by (simp add: extract_main_text_def)

lemma build_article_site_author:
  "build_article E A original_url (html_text, final, resolved, k) = Inr out \<Longrightarrow>
   \<exists>p. urlparse E final = Inr p \<and> data_site out = netloc p
     \<and> data_author out = pick_meta (html_parser E html_text) [''author'', ''article:author'']"
  by (auto simp: build_article_def Let_def split: sum.splits prod.splits)

text \<open>
  Claim C8. The translation stage raises only what the constructor of the translator
  raises. When the translation of the title fails, the title keeps its value and the
  stage goes on; when the translation of a chunk of the text fails, the text keeps its
  value. The site and the author of the record are the same whatever the translator does
  and whatever target language is asked for.
\<close>

theorem translation_failures_do_not_abort:
  fixes E :: env and A :: args
  shows
  "(\<forall>e. translation_stage E target_lang lang title txt = Inl e
       \<longrightarrow> (\<exists>target. target_lang = Some target \<and> new_translator E target = Some e))
   \<and> (\<forall>target e. translation_active (Some target) lang \<and> new_translator E target = None
         \<and> translate E target 0 title = Inl e
       \<longrightarrow> (\<exists>txt'. translation_stage E (Some target) lang title txt = Inr (title, txt')))
   \<and> (\<forall>target i e. translation_active (Some target) lang \<and> new_translator E target = None
         \<and> i < length (chunks_of 4500 txt)
         \<and> translate E target (snd (translate_title E target title) + i)
              (chunks_of 4500 txt ! i) = Inl e
       \<longrightarrow> (\<exists>title'. translation_stage E (Some target) lang title txt = Inr (title', txt)))
   \<and> (\<forall>tr nt tl out out'. build_article E A original_url st = Inr out
         \<and> build_article (E\<lparr>translate := tr, new_translator := nt\<rparr>)
              (A\<lparr>arg_target_lang := tl\<rparr>) original_url st = Inr out'
       \<longrightarrow> data_site out' = data_site out \<and> data_author out' = data_author out)"
proof (intro conjI allI impI)
  fix e
  assume "translation_stage E target_lang lang title txt = Inl e"
  then show "\<exists>target. target_lang = Some target \<and> new_translator E target = Some e"
    by (auto simp: translation_stage_def split: if_splits option.splits prod.splits)
next
  fix target e
  assume "translation_active (Some target) lang \<and> new_translator E target = None
      \<and> translate E target 0 title = Inl e"
  then show "\<exists>txt'. translation_stage E (Some target) lang title txt = Inr (title, txt')"
    by (simp add: translation_stage_def translate_title_def)
next
  fix target i e
  assume a: "translation_active (Some target) lang \<and> new_translator E target = None
      \<and> i < length (chunks_of 4500 txt)
      \<and> translate E target (snd (translate_title E target title) + i)
           (chunks_of 4500 txt ! i) = Inl e"
  then have "\<exists>e. translate_chunks E target (snd (translate_title E target title))
      (chunks_of 4500 txt) = Inl e"
    using translate_chunks_fails_iff by blast
  then have "translate_text E target (snd (translate_title E target title)) txt = txt"
    by (auto simp: translate_text_def)
  with a show "\<exists>title'. translation_stage E (Some target) lang title txt = Inr (title', txt)"
    by (auto simp: translation_stage_def split: prod.splits)
next
  fix tr nt tl out out'
  assume a: "build_article E A original_url st = Inr out
      \<and> build_article (E\<lparr>translate := tr, new_translator := nt\<rparr>)
           (A\<lparr>arg_target_lang := tl\<rparr>) original_url st = Inr out'"
  obtain html_text final resolved k where st: "st = (html_text, final, resolved, k)"
    by (cases st)
  from a st obtain p where p: "urlparse E final = Inr p" "data_site out = netloc p"
      "data_author out = pick_meta (html_parser E html_text) [''author'', ''article:author'']"
    using build_article_site_author[of E A original_url html_text final resolved k out]
    by auto
  from a st obtain p' where p': "urlparse (E\<lparr>translate := tr, new_translator := nt\<rparr>) final = Inr p'"
      "data_site out' = netloc p'"
      "data_author out' = pick_meta (html_parser (E\<lparr>translate := tr, new_translator := nt\<rparr>) html_text)
         [''author'', ''article:author'']"
    using build_article_site_author[of "E\<lparr>translate := tr, new_translator := nt\<rparr>"
        "A\<lparr>arg_target_lang := tl\<rparr>" original_url html_text final resolved k out']
    by auto
  from p(1) p'(1) have "p' = p" by (simp add: urlparse_translator_irrelevant)
  with p p' have "data_site out' = data_site out \<and> data_author out' = data_author out"
    by simp
  then show "data_site out' = data_site out" and "data_author out' = data_author out"
    by simp_all
qed

theorem translation_failures_do_not_abort_witness:
  "translation_active (Some ''fr'') (Some ''en'')
   \<and> new_translator failing_translator_env ''fr'' = None
   \<and> translate failing_translator_env ''fr'' 0 ''A story''
       = Inl (Other ''RequestError'' ''Request exception'')
   \<and> (0::nat) < length (chunks_of 4500 ''First paragraph.'')
   \<and> translation_stage failing_translator_env (Some ''fr'') (Some ''en'') ''A story''
        ''First paragraph.'' = Inr (''A story'', ''First paragraph.'')
   \<and> translation_stage tagging_translator_env (Some ''fr'') (Some ''en'') ''A story''
        ''First paragraph.'' = Inr (''fr:A story'', ''fr:First paragraph.'')
   \<and> (\<exists>out'. build_article tagging_translator_env french_args ''https://example.com/story''
          (''<html>story</html>'', ''https://example.com/story'', ''https://example.com/story'', 0)
          = Inr out' \<and> data_title out' = ''fr:A story'' \<and> data_site out' = ''example.com''
          \<and> data_author out' = Some ''Jo Doe'')"
proof -
  let ?E = failing_translator_env
  have a: "translation_active (Some ''fr'') (Some ''en'')" by code_simp
  have n: "new_translator ?E ''fr'' = None" by code_simp
  have t: "translate ?E ''fr'' 0 ''A story'' = Inl (Other ''RequestError'' ''Request exception'')"
    by code_simp
  have l: "(0::nat) < length (chunks_of 4500 ''First paragraph.'')" by code_simp
  have c: "translate ?E ''fr'' (snd (translate_title ?E ''fr'' ''A story'') + 0)
      (chunks_of 4500 ''First paragraph.'' ! 0) = Inl (Other ''RequestError'' ''Request exception'')"
    by code_simp
  note th = translation_failures_do_not_abort
    [of ?E "Some ''fr''" "Some ''en''" "''A story''" "''First paragraph.''"]
  from th a n t obtain txt' where
    1: "translation_stage ?E (Some ''fr'') (Some ''en'') ''A story'' ''First paragraph.''
      = Inr (''A story'', txt')"
    by blast
  from th a n l c obtain title' where
    2: "translation_stage ?E (Some ''fr'') (Some ''en'') ''A story'' ''First paragraph.''
      = Inr (title', ''First paragraph.'')"
    by blast
  from 1 2 have s: "translation_stage ?E (Some ''fr'') (Some ''en'') ''A story''
      ''First paragraph.'' = Inr (''A story'', ''First paragraph.'')"
    by simp
  have g: "translation_stage tagging_translator_env (Some ''fr'') (Some ''en'') ''A story''
        ''First paragraph.'' = Inr (''fr:A story'', ''fr:First paragraph.'')"
    by code_simp
  let ?st = "(''<html>story</html>'', ''https://example.com/story'', ''https://example.com/story'', 0::nat)"
  define out where "out = \<lparr>data_url = ''https://example.com/story'',
      data_resolved_url = ''https://example.com/story'',
      data_final_url = ''https://example.com/story'',
      data_site = ''example.com'', data_title = ''A story'',
      data_author = Some ''Jo Doe'', data_published_at = None,
      data_lang = Some ''en'',
      data_text = ''First paragraph.'' @ [NL] @ ''Second paragraph.'',
      data_fetched_at = ''2026-01-01T00:00:00+00:00''\<rparr>"
  define out' where "out' = out\<lparr>data_title := ''fr:A story'',
      data_text := ''fr:First paragraph.'' @ [NL] @ ''Second paragraph.''\<rparr>"
  have o: "build_article article_env article_args ''https://example.com/story'' ?st = Inr out"
    unfolding out_def by code_simp
  have e: "tagging_translator_env = article_env\<lparr>translate := translate tagging_translator_env,
      new_translator := new_translator tagging_translator_env\<rparr>"
    by (simp add: tagging_translator_env_def)
  have f: "french_args = article_args\<lparr>arg_target_lang := Some ''fr''\<rparr>"
    by (simp add: french_args_def)
  have o': "build_article tagging_translator_env french_args ''https://example.com/story'' ?st
      = Inr out'"
    unfolding out'_def out_def by code_simp
  have "data_site out' = data_site out \<and> data_author out' = data_author out"
    using translation_failures_do_not_abort
      [of article_env undefined undefined undefined undefined article_args
          "''https://example.com/story''" ?st] o o' e f
    by metis
  then have "data_site out' = ''example.com'' \<and> data_author out' = Some ''Jo Doe''"
    by (simp add: out_def)
  moreover have "data_title out' = ''fr:A story''" by (simp add: out'_def)
  ultimately have "\<exists>out'. build_article tagging_translator_env french_args
          ''https://example.com/story'' ?st = Inr out' \<and> data_title out' = ''fr:A story''
          \<and> data_site out' = ''example.com'' \<and> data_author out' = Some ''Jo Doe''"
    using o' by blast
  with a n t l s g show ?thesis by simp
qed


text \<open>
  Claim C10. When the request names a target language (a string that is not empty) and
  no language is detected for the document, the translation stage is active: the
  translator is built, the title is translated when it is not empty and the text is
  translated chunk by chunk when it is not empty, and the record carries the results.
  An absent detected language differs from every target language.
\<close>

theorem absent_language_activates_translation:
  fixes E :: env and A :: args
  assumes t: "target \<noteq> []"
  shows
  "translation_active (Some target) None
   \<and> translation_stage E (Some target) None title txt
       = (case new_translator E target of
            Some e \<Rightarrow> Inl e
          | None \<Rightarrow> Inr (fst (translate_title E target title),
                translate_text E target (snd (translate_title E target title)) txt))
   \<and> (\<forall>title'. title \<noteq> [] \<and> translate E target 0 title = Inr title'
         \<longrightarrow> translate_title E target title = (title', 1))
   \<and> (\<forall>n ts. txt \<noteq> [] \<and> translate_chunks E target n (chunks_of 4500 txt) = Inr ts
         \<longrightarrow> translate_text E target n txt = join '' '' ts)
   \<and> (\<forall>html_text final resolved k p.
         arg_target_lang A = Some target \<and> page_lang (html_parser E html_text) = None
         \<and> new_translator E target = None \<and> urlparse E final = Inr p
         \<longrightarrow> (\<exists>out. build_article E A original_url (html_text, final, resolved, k) = Inr out
              \<and> data_lang out = None
              \<and> data_title out
                  = fst (translate_title E target (page_title (html_parser E html_text)))
              \<and> data_text out
                  = translate_text E target
                      (snd (translate_title E target (page_title (html_parser E html_text))))
                      (extract_main_text E (html_parser E html_text) html_text)))"
proof (intro conjI allI impI)
  from t show a: "translation_active (Some target) None"
    by (simp add: translation_active_def)
  then have s: "translation_stage E (Some target) None ti bo
       = (case new_translator E target of
            Some e \<Rightarrow> Inl e
          | None \<Rightarrow> Inr (fst (translate_title E target ti),
                translate_text E target (snd (translate_title E target ti)) bo))" for ti bo
    by (simp add: translation_stage_def split: option.splits prod.splits)
  then show "translation_stage E (Some target) None title txt
       = (case new_translator E target of
            Some e \<Rightarrow> Inl e
          | None \<Rightarrow> Inr (fst (translate_title E target title),
                translate_text E target (snd (translate_title E target title)) txt))" .
  fix html_text final resolved k p
  assume h: "arg_target_lang A = Some target \<and> page_lang (html_parser E html_text) = None
         \<and> new_translator E target = None \<and> urlparse E final = Inr p"
  then show "\<exists>out. build_article E A original_url (html_text, final, resolved, k) = Inr out
              \<and> data_lang out = None
              \<and> data_title out
                  = fst (translate_title E target (page_title (html_parser E html_text)))
              \<and> data_text out
                  = translate_text E target
                      (snd (translate_title E target (page_title (html_parser E html_text))))
                      (extract_main_text E (html_parser E html_text) html_text)"
    by (simp add: build_article_def Let_def s)
next
  fix title'
  assume "title \<noteq> [] \<and> translate E target 0 title = Inr title'"
  then show "translate_title E target title = (title', 1)"
    by (simp add: translate_title_def)
next
  fix n ts
  assume "txt \<noteq> [] \<and> translate_chunks E target n (chunks_of 4500 txt) = Inr ts"
  then show "translate_text E target n txt = join '' '' ts"
    by (simp add: translate_text_def)
qed

theorem absent_language_activates_translation_witness:
  "''fr'' \<noteq> []
   \<and> page_lang (html_parser unlabelled_env ''<html>story</html>'') = None
   \<and> translation_active (Some ''fr'') None
   \<and> translate_title unlabelled_env ''fr'' ''A headline'' = (''fr:A headline'', 1)
   \<and> translate_text unlabelled_env ''fr'' 1 ''a text'' = ''fr:a text''
   \<and> (\<exists>out. build_article unlabelled_env french_args ''https://example.com/story''
          (''<html>story</html>'', ''https://example.com/story'', ''https://example.com/story'', 0)
          = Inr out \<and> data_lang out = None \<and> data_title out = ''fr:A headline''
          \<and> data_text out = ''fr:a text'')"
proof -
  let ?E = unlabelled_env
  have t: "''fr'' \<noteq> []" by simp
  note th = absent_language_activates_translation[OF t, of ?E _ _ french_args]
  have l: "page_lang (html_parser ?E ''<html>story</html>'') = None" by code_simp
  have tl: "arg_target_lang french_args = Some ''fr''" by code_simp
  have n: "new_translator ?E ''fr'' = None" by code_simp
  have u: "urlparse ?E ''https://example.com/story''
      = Inr \<lparr>scheme = ''https'', netloc = ''example.com'', path = ''/story'', params = [],
             query = [], fragment = []\<rparr>"
    by code_simp
  have pt: "page_title (html_parser ?E ''<html>story</html>'') = ''A headline''" by code_simp
  have mt: "extract_main_text ?E (html_parser ?E ''<html>story</html>'') ''<html>story</html>''
      = ''a text''"
    by code_simp
  have t0: "translate ?E ''fr'' 0 ''A headline'' = Inr ''fr:A headline''" by code_simp
  have c: "translate_chunks ?E ''fr'' 1 (chunks_of 4500 ''a text'') = Inr [''fr:a text'']"
    by code_simp
  from th[of "''A headline''" "''a text''"] t0
  have tt: "translate_title ?E ''fr'' ''A headline'' = (''fr:A headline'', 1)" by simp
  from th[of "''A headline''" "''a text''"] c
  have tx: "translate_text ?E ''fr'' 1 ''a text'' = ''fr:a text''" by auto
  from th[of "''A headline''" "''a text''" "''https://example.com/story''"] l tl n u
  obtain out where o: "build_article ?E french_args ''https://example.com/story''
          (''<html>story</html>'', ''https://example.com/story'', ''https://example.com/story'', 0)
          = Inr out" "data_lang out = None"
      "data_title out = fst (translate_title ?E ''fr'' (page_title (html_parser ?E ''<html>story</html>'')))"
      "data_text out = translate_text ?E ''fr''
          (snd (translate_title ?E ''fr'' (page_title (html_parser ?E ''<html>story</html>''))))
          (extract_main_text ?E (html_parser ?E ''<html>story</html>'') ''<html>story</html>'')"
    by blast
  from o pt mt tt tx have "data_title out = ''fr:A headline'' \<and> data_text out = ''fr:a text''"
    by simp
  with o(1,2) have "\<exists>out. build_article ?E french_args ''https://example.com/story''
          (''<html>story</html>'', ''https://example.com/story'', ''https://example.com/story'', 0)
          = Inr out \<and> data_lang out = None \<and> data_title out = ''fr:A headline''
          \<and> data_text out = ''fr:a text''"
    by blast
  moreover from th have "translation_active (Some ''fr'') None" by blast
  ultimately show ?thesis using l tt tx by simp
qed


section \<open>Redirect links\<close>

lemma parse_qs_add_lookup:
  "parse_qs_add d pairs k =
     (case d k of
        Some ws \<Rightarrow> Some (ws @ map snd (filter (\<lambda>nv. fst nv = k) pairs))
      | None \<Rightarrow>
          (case map snd (filter (\<lambda>nv. fst nv = k) pairs) of
             [] \<Rightarrow> None
           | v # vs \<Rightarrow> Some (v # vs)))"
proof (induction pairs arbitrary: d)
  case Nil
  show ?case by (simp split: option.splits)
next
  case (Cons nv pairs)
  obtain name v where nv: "nv = (name, v)" by (cases nv)
  show ?case
    unfolding nv by (cases "d name") (auto simp: Cons.IH split: option.splits list.splits)
qed

lemma map_of_first_value:
  "map_of pairs k = (case map snd (filter (\<lambda>nv. fst nv = k) pairs) of
      [] \<Rightarrow> None | v # vs \<Rightarrow> Some v)"
  by (induction pairs) auto

lemma parse_qs_first:
  "(parse_qs E qs k = None \<and> map_of (parse_qsl E qs) k = None)
   \<or> (\<exists>v vs. parse_qs E qs k = Some (v # vs) \<and> map_of (parse_qsl E qs) k = Some v)"
  by (simp add: parse_qs_def parse_qs_add_lookup map_of_first_value split: list.splits)

lemma map_of_parse_qsl: "map_of (parse_qsl E qs) name = query_param E name qs"
proof -
  have "map_of (List.map_filter (parse_field E) fields) name
      = map_option (\<lambda>field. url_decode E (snd (split1 CHR ''='' field)))
          (List.find (is_param E name) fields)" for fields
  proof (induction fields)
    case Nil
    show ?case by (simp add: List.map_filter_simps)
  next
    case (Cons f fields)
    show ?case
    proof (cases "parse_field E f")
      case None
      then have "\<not> is_param E name f"
        by (auto simp: parse_field_def is_param_def Let_def split: if_splits)
      with None Cons show ?thesis by (simp add: List.map_filter_simps)
    next
      case (Some nv)
      then have nv: "nv = (url_decode E (fst (split1 CHR ''='' f)),
            url_decode E (snd (split1 CHR ''='' f)))"
          and p: "CHR ''='' \<in> set f" "snd (split1 CHR ''='' f) \<noteq> []"
        by (auto simp: parse_field_def url_decode_def Let_def split: if_splits)
      show ?thesis
      proof (cases "is_param E name f")
        case True
        with Some nv show ?thesis by (simp add: List.map_filter_simps is_param_def)
      next
        case False
        with p have "fst nv \<noteq> name" by (simp add: is_param_def nv)
        with Some False Cons show ?thesis
          by (cases nv) (simp add: List.map_filter_simps)
      qed
    qed
  qed
  then show ?thesis by (simp add: parse_qsl_def query_param_def)
qed

lemma urlparse_example:
  "urlparse E ''https://google.com/url?q=https://example.com/a&sa=D''
     = Inr \<lparr>scheme = ''https'', netloc = ''google.com'', path = ''/url'', params = [],
            query = ''q=https://example.com/a&sa=D'', fragment = []\<rparr>"
  by (simp add: urlparse_def urlsplit_def split_scheme_def has_scheme_def
     split_netloc_def check_netloc_def split_opt_def split1_def c0_or_space_def unsafe_url_char_def
     netloc_char_def lower_def lower_char_def ascii_letters_def scheme_chars_def uses_params_def)

lemma query_param_example:
  "query_param E ''url'' ''q=https://example.com/a&sa=D'' = None"
  "query_param E ''q'' ''q=https://example.com/a&sa=D'' = Some ''https://example.com/a''"
  by (simp_all add: query_param_def is_param_def url_decode_def unquote_def plus_to_space_def
      split1_def)

text \<open>
  Claim C4. On a gateway redirect link, \<open>unwrap_google_redirect\<close> returns the URL-decoded
  value of the query parameter \<open>url\<close> when it is present, else that of the parameter \<open>q\<close>
  when it is present, else the href; an href that is no gateway redirect link and an
  href that the URL parser rejects are returned unchanged; and
  \<open>https://google.com/url?q=https://example.com/a&sa=D\<close> gives \<open>https://example.com/a\<close>.
\<close>

theorem unwrap_google_redirect_spec:
  fixes E :: env
  shows
  "(\<forall>p. urlparse E href = Inr p \<and> is_gateway_redirect E href \<longrightarrow>
       unwrap_google_redirect E href =
         (case query_param E ''url'' (query p) of
            Some v \<Rightarrow> v
          | None \<Rightarrow> (case query_param E ''q'' (query p) of Some v \<Rightarrow> v | None \<Rightarrow> href)))
   \<and> (\<not> is_gateway_redirect E href \<longrightarrow> unwrap_google_redirect E href = href)
   \<and> (\<forall>e. urlparse E href = Inl e \<longrightarrow> unwrap_google_redirect E href = href)
   \<and> unwrap_google_redirect E ''https://google.com/url?q=https://example.com/a&sa=D''
       = ''https://example.com/a''"
proof (intro conjI allI impI)
  fix p
  assume "urlparse E href = Inr p \<and> is_gateway_redirect E href"
  then show "unwrap_google_redirect E href =
         (case query_param E ''url'' (query p) of
            Some v \<Rightarrow> v
          | None \<Rightarrow> (case query_param E ''q'' (query p) of Some v \<Rightarrow> v | None \<Rightarrow> href))"
    using parse_qs_first[of E "query p" "''url''"] parse_qs_first[of E "query p" "''q''"]
    by (auto simp: unwrap_google_redirect_def is_gateway_redirect_def Let_def map_of_parse_qsl)
next
  assume "\<not> is_gateway_redirect E href"
  then show "unwrap_google_redirect E href = href"
    by (auto simp: unwrap_google_redirect_def is_gateway_redirect_def Let_def split: sum.splits)
next
  fix e
  assume "urlparse E href = Inl e"
  then show "unwrap_google_redirect E href = href"
    by (simp add: unwrap_google_redirect_def)
next
  show "unwrap_google_redirect E ''https://google.com/url?q=https://example.com/a&sa=D''
       = ''https://example.com/a''"
    using parse_qs_first[of E "''q=https://example.com/a&sa=D''" "''url''"]
      parse_qs_first[of E "''q=https://example.com/a&sa=D''" "''q''"]
    by (auto simp: unwrap_google_redirect_def urlparse_example Let_def
        map_of_parse_qsl query_param_example lower_def lower_char_def)
qed

theorem unwrap_google_redirect_spec_witness:
  "urlparse wrapper_env
       ''https://www.google.com/url?sa=t&url=https%3A%2F%2Fexample.com%2Fa%3Fx%3D1&q=other''
     = Inr \<lparr>scheme = ''https'', netloc = ''www.google.com'', path = ''/url'', params = [],
            query = ''sa=t&url=https%3A%2F%2Fexample.com%2Fa%3Fx%3D1&q=other'',
            fragment = []\<rparr>
   \<and> is_gateway_redirect wrapper_env
       ''https://www.google.com/url?sa=t&url=https%3A%2F%2Fexample.com%2Fa%3Fx%3D1&q=other''
   \<and> unwrap_google_redirect wrapper_env
       ''https://www.google.com/url?sa=t&url=https%3A%2F%2Fexample.com%2Fa%3Fx%3D1&q=other''
     = ''https://example.com/a?x=1''
   \<and> \<not> is_gateway_redirect wrapper_env ''https://example.com/url?q=https://example.org/''
   \<and> unwrap_google_redirect wrapper_env ''https://example.com/url?q=https://example.org/''
     = ''https://example.com/url?q=https://example.org/''
   \<and> urlparse wrapper_env ''http://[google.com/url?q=https://example.org/''
     = Inl (ValueError ''Invalid IPv6 URL'')
   \<and> unwrap_google_redirect wrapper_env ''http://[google.com/url?q=https://example.org/''
     = ''http://[google.com/url?q=https://example.org/''"
proof -
  let ?h1 = "''https://www.google.com/url?sa=t&url=https%3A%2F%2Fexample.com%2Fa%3Fx%3D1&q=other''"
  let ?q1 = "''sa=t&url=https%3A%2F%2Fexample.com%2Fa%3Fx%3D1&q=other''"
  let ?h2 = "''https://example.com/url?q=https://example.org/''"
  let ?h3 = "''http://[google.com/url?q=https://example.org/''"
  have p1: "urlparse wrapper_env ?h1
     = Inr \<lparr>scheme = ''https'', netloc = ''www.google.com'', path = ''/url'', params = [],
            query = ?q1, fragment = []\<rparr>"
    by code_simp
  have g1: "is_gateway_redirect wrapper_env ?h1" by code_simp
  have v1: "query_param wrapper_env ''url'' ?q1 = Some ''https://example.com/a?x=1''"
    by code_simp
  have g2: "\<not> is_gateway_redirect wrapper_env ?h2" by code_simp
  have p3: "urlparse wrapper_env ?h3 = Inl (ValueError ''Invalid IPv6 URL'')" by code_simp
  from unwrap_google_redirect_spec[of wrapper_env ?h1] p1 g1 v1
  have "unwrap_google_redirect wrapper_env ?h1 = ''https://example.com/a?x=1''"
    by simp
  moreover from unwrap_google_redirect_spec[of wrapper_env ?h2] g2
  have "unwrap_google_redirect wrapper_env ?h2 = ?h2" by blast
  moreover from unwrap_google_redirect_spec[of wrapper_env ?h3] p3
  have "unwrap_google_redirect wrapper_env ?h3 = ?h3" by blast
  ultimately show ?thesis using p1 g1 g2 p3 by simp
qed


section \<open>Publisher links\<close>

text \<open>
  Claim C5. On the page below the only anchor carries a call-to-action text and points to
  \<open>www.google.com\<close>, a gateway host of the wrapper detector. The claim accepts an href
  only if its host is off-aggregator, and the anchor scan of \<open>decode_google_news_url\<close>
  refuses this one; strategy 1 of the extractor returns it.
\<close>

theorem extract_publisher_accepts_gateway_host:
  "extract_publisher_url_from_google_news (showing gateway_link_page) ''<html>wrapper</html>''
       ''https://news.google.com/articles/abc''
     = Inr (Some ''https://www.google.com/intl/en/about'')
   \<and> strategy1 (showing gateway_link_page)
       (anchors (html_parser (showing gateway_link_page) ''<html>wrapper</html>''))
     = Inr (Some ''https://www.google.com/intl/en/about'')
   \<and> \<not> off_aggregator (showing gateway_link_page) ''https://www.google.com/intl/en/about''
   \<and> \<not> browser_scan_accepts (showing gateway_link_page)
       ''https://www.google.com/intl/en/about''"
  by code_simp


section \<open>Content extraction\<close>

lemma is_tag_decompose: "is_tag names (decompose names n) = is_tag names n"
  by (cases n) (simp_all add: is_tag_def)

lemma set_descendants_Element:
  "set (descendants (Element t as ks)) = (\<Union>k \<in> set ks. insert k (set (descendants k)))"
  by simp

lemma decompose_removes:
  "\<forall>m \<in> set (descendants (decompose names n)). \<not> is_tag names m"
  "\<forall>k \<in> set (decompose_all names ks).
      \<not> is_tag names k \<and> (\<forall>m \<in> set (descendants k). \<not> is_tag names m)"
proof (induction names n and names ks rule: decompose_decompose_all.induct)
  case (1 names s)
  show ?case by simp
next
  case (2 names s)
  show ?case by simp
next
  case (3 names t as ks)
  then show ?case unfolding decompose.simps set_descendants_Element by blast
next
  case (4 names)
  show ?case by simp
next
  case (5 names k ks)
  show ?case
  proof (cases "is_tag names k")
    case True
    with "5.IH"(1) show ?thesis by simp
  next
    case False
    then have n: "\<not> is_tag names (decompose names k)" by (simp add: is_tag_decompose)
    from False have e: "decompose_all names (k # ks) = decompose names k # decompose_all names ks"
      by simp
    from n "5.IH"(2)[OF False] "5.IH"(3)[OF False] show ?thesis
      unfolding e by (simp only: set_simps ball_simps) blast
  qed
qed

lemma sorted_key_last:
  "sorted (map f ys) \<Longrightarrow> x \<in> set ys \<Longrightarrow> f x \<le> f (last ys)"
  by (induction ys) auto

lemma sort_reverse_head:
  assumes "xs \<noteq> []"
  shows "\<exists>c cs. sort_reverse xs = c # cs \<and> c \<in> set xs \<and> (\<forall>x \<in> set xs. fst x \<le> fst c)"
proof -
  define ys where "ys = sort_key fst (rev xs)"
  have s: "set ys = set xs" and o: "sorted (map fst ys)" by (simp_all add: ys_def)
  from assms s have ne: "ys \<noteq> []" by auto
  then obtain c cs where r: "rev ys = c # cs" by (cases "rev ys") auto
  then have "c = hd (rev ys)" by simp
  with ne have c: "c = last ys" by (simp add: hd_rev)
  from ne c s have "c \<in> set xs" using last_in_set[of ys] by simp
  moreover have "\<forall>x \<in> set xs. fst x \<le> fst c"
    using sorted_key_last[OF o] s c by blast
  moreover have "sort_reverse xs = c # cs" using r by (simp add: sort_reverse_def ys_def)
  ultimately show ?thesis by blast
qed

lemma set_map_filter: "set (List.map_filter f xs) = {y. \<exists>x \<in> set xs. f x = Some y}"
  by (induction xs) (auto simp: List.map_filter_simps split: option.splits)

lemma set_candidates:
  "set (candidates soup) =
     {(length (normalized_text n), normalized_text n) | n.
        n \<in> set (find_all [''main'', ''div'', ''section''] soup)
        \<and> 800 \<le> length (normalized_text n)}"
proof -
  have f: "set (find_all [''main'', ''div'', ''section''] soup)
      = set (find_all [''main''] soup) \<union> set (find_all [''div''] soup)
        \<union> set (find_all [''section''] soup)"
    by (auto simp: find_all_def is_tag_def split: node.splits)
  have c: "candidate n = Some y \<longleftrightarrow>
      y = (length (normalized_text n), normalized_text n) \<and> 800 \<le> length (normalized_text n)"
    for n y
    by (auto simp: candidate_def normalized_text_def Let_def)
  show ?thesis
    unfolding candidates_def f by (auto simp: set_map_filter c)
qed

lemma fallback_text_article:
  "soup_find ''article'' (content_tree soup) = Some article
   \<Longrightarrow> fallback_text soup = normalized_text article"
  by (simp add: fallback_text_def content_tree_def non_content_tags_def normalized_text_def
      Let_def)

lemma fallback_text_candidates:
  assumes "soup_find ''article'' (content_tree soup) = None"
    and "\<exists>n \<in> set (containers soup). 800 \<le> length (normalized_text n)"
  shows "(\<exists>n \<in> set (containers soup). fallback_text soup = normalized_text n)
     \<and> 800 \<le> length (fallback_text soup)
     \<and> (\<forall>n \<in> set (containers soup). length (normalized_text n) \<le> length (fallback_text soup))"
proof -
  let ?cs = "candidates (content_tree soup)"
  from assms(2) have "?cs \<noteq> []"
    using set_candidates[of "content_tree soup"] by (auto simp: containers_def)
  then obtain c cs where s: "sort_reverse ?cs = c # cs" and m: "c \<in> set ?cs"
      and mx: "\<forall>x \<in> set ?cs. fst x \<le> fst c"
    using sort_reverse_head by blast
  from assms(1) s have r: "fallback_text soup = snd c"
    by (simp add: fallback_text_def content_tree_def non_content_tags_def Let_def)
  from m obtain n where n: "n \<in> set (containers soup)" "c = (length (normalized_text n), normalized_text n)"
      "800 \<le> length (normalized_text n)"
    using set_candidates[of "content_tree soup"] by (auto simp: containers_def)
  have "length (normalized_text k) \<le> length (fallback_text soup)"
    if k: "k \<in> set (containers soup)" for k
  proof (cases "800 \<le> length (normalized_text k)")
    case True
    with k have "(length (normalized_text k), normalized_text k) \<in> set ?cs"
      using set_candidates[of "content_tree soup"] by (auto simp: containers_def)
    with mx have "length (normalized_text k) \<le> fst c" by fastforce
    with n r show ?thesis by simp
  next
    case False
    with n r show ?thesis by simp
  qed
  with n r show ?thesis by auto
qed

lemma fallback_text_body:
  assumes "soup_find ''article'' (content_tree soup) = None"
    and "\<forall>n \<in> set (containers soup). length (normalized_text n) < 800"
  shows "fallback_text soup =
     (case soup_find ''body'' (content_tree soup) of
        Some body \<Rightarrow> normalized_text body
      | None \<Rightarrow> [])"
proof -
  from assms(2) have "set (candidates (content_tree soup)) = {}"
    using set_candidates[of "content_tree soup"] by (auto simp: containers_def)
  then have "sort_reverse (candidates (content_tree soup)) = []"
    by (simp add: sort_reverse_def)
  with assms(1) show ?thesis
    by (simp add: fallback_text_def content_tree_def non_content_tags_def normalized_text_def Let_def
        split: option.splits)
qed

lemma extract_main_text_fallback:
  "engine_yields_nothing E html_text \<Longrightarrow> extract_main_text E soup html_text = fallback_text soup"
  by (auto simp: engine_yields_nothing_def extract_main_text_def split: sum.splits option.splits)

text \<open>
  Claim C6, as amended. The chain is first-match-wins, whether or not the text of the
  match is empty. A result of the specialized engine that is not the empty string gives
  its normalized text. When the engine yields nothing, the result is computed on the tree
  from which every \<open>script\<close>, \<open>style\<close>, \<open>noscript\<close>, \<open>header\<close>, \<open>footer\<close>, \<open>nav\<close> and
  \<open>aside\<close> element is removed: it is the normalized text of the first \<open>article\<close> element
  left in that tree if there is one, even when that text is empty; otherwise the
  normalized text of a \<open>main\<close>, \<open>div\<close> or \<open>section\<close> element of at least 800 characters
  that is as long as any other, if there is one; otherwise the normalized text of the
  \<open>body\<close> element; otherwise the empty string. The function always returns a string.
\<close>

theorem extract_main_text_chain:
  fixes E :: env
  shows
  "(\<forall>t. trafilatura_extract E html_text = Inr (Some t) \<and> t \<noteq> []
       \<longrightarrow> extract_main_text E soup html_text = normalize_space t)
   \<and> (engine_yields_nothing E html_text \<longrightarrow>
        (\<forall>n \<in> set (descendants (content_tree soup)).
            \<not> is_tag [''script'', ''style'', ''noscript'', ''header'', ''footer'', ''nav'', ''aside''] n)
      \<and> (\<forall>article. soup_find ''article'' (content_tree soup) = Some article
           \<longrightarrow> extract_main_text E soup html_text = normalized_text article)
      \<and> (soup_find ''article'' (content_tree soup) = None
           \<and> (\<exists>n \<in> set (containers soup). 800 \<le> length (normalized_text n))
           \<longrightarrow> (\<exists>n \<in> set (containers soup). extract_main_text E soup html_text = normalized_text n)
             \<and> 800 \<le> length (extract_main_text E soup html_text)
             \<and> (\<forall>n \<in> set (containers soup).
                   length (normalized_text n) \<le> length (extract_main_text E soup html_text)))
      \<and> (soup_find ''article'' (content_tree soup) = None
           \<and> (\<forall>n \<in> set (containers soup). length (normalized_text n) < 800)
           \<longrightarrow> (\<forall>body. soup_find ''body'' (content_tree soup) = Some body
                  \<longrightarrow> extract_main_text E soup html_text = normalized_text body)
             \<and> (soup_find ''body'' (content_tree soup) = None
                  \<longrightarrow> extract_main_text E soup html_text = [])))"
proof (intro conjI allI impI)
  fix t
  assume "trafilatura_extract E html_text = Inr (Some t) \<and> t \<noteq> []"
  then show "extract_main_text E soup html_text = normalize_space t"
    by (simp add: extract_main_text_def)
next
  show "\<forall>n \<in> set (descendants (content_tree soup)).
      \<not> is_tag [''script'', ''style'', ''noscript'', ''header'', ''footer'', ''nav'', ''aside''] n"
    unfolding content_tree_def by (rule decompose_removes(1))
next
  fix article
  assume "engine_yields_nothing E html_text"
    and "soup_find ''article'' (content_tree soup) = Some article"
  then show "extract_main_text E soup html_text = normalized_text article"
    by (simp add: extract_main_text_fallback fallback_text_article)
next
  assume e: "engine_yields_nothing E html_text"
    and c: "soup_find ''article'' (content_tree soup) = None
       \<and> (\<exists>n \<in> set (containers soup). 800 \<le> length (normalized_text n))"
  from c have f: "(\<exists>n \<in> set (containers soup). fallback_text soup = normalized_text n)
     \<and> 800 \<le> length (fallback_text soup)
     \<and> (\<forall>n \<in> set (containers soup). length (normalized_text n) \<le> length (fallback_text soup))"
    using fallback_text_candidates[of soup] by blast
  from f e show "\<exists>n \<in> set (containers soup). extract_main_text E soup html_text = normalized_text n"
    by (simp add: extract_main_text_fallback)
  from f e show "800 \<le> length (extract_main_text E soup html_text)"
    by (simp add: extract_main_text_fallback)
  from f e show "\<forall>n \<in> set (containers soup).
      length (normalized_text n) \<le> length (extract_main_text E soup html_text)"
    by (simp add: extract_main_text_fallback)
next
  fix body
  assume e: "engine_yields_nothing E html_text"
    and c: "soup_find ''article'' (content_tree soup) = None
       \<and> (\<forall>n \<in> set (containers soup). length (normalized_text n) < 800)"
    and b: "soup_find ''body'' (content_tree soup) = Some body"
  from c b e show "extract_main_text E soup html_text = normalized_text body"
    using fallback_text_body[of soup] by (simp add: extract_main_text_fallback)
next
  assume e: "engine_yields_nothing E html_text"
    and c: "soup_find ''article'' (content_tree soup) = None
       \<and> (\<forall>n \<in> set (containers soup). length (normalized_text n) < 800)"
    and b: "soup_find ''body'' (content_tree soup) = None"
  from c b e show "extract_main_text E soup html_text = []"
    using fallback_text_body[of soup] by (simp add: extract_main_text_fallback)
qed

theorem extract_main_text_chain_witness:
  "trafilatura_extract engine_env ''<html>story</html>'' = Inr (Some '' Engine  text '')
   \<and> extract_main_text engine_env article_page ''<html>story</html>'' = ''Engine text''
   \<and> engine_yields_nothing article_env ''<html>story</html>''
   \<and> soup_find ''article'' (content_tree article_page)
       = Some (Element ''article'' []
           [Element ''p'' [] [Text '' First  paragraph. ''],
            Element ''p'' [] [Text ''Second paragraph.'']])
   \<and> extract_main_text article_env article_page ''<html>story</html>''
       = ''First paragraph.'' @ [NL] @ ''Second paragraph.''
   \<and> soup_find ''article'' (content_tree containers_page) = None
   \<and> (\<exists>n \<in> set (containers containers_page).
         extract_main_text article_env containers_page ''<html>story</html>'' = normalized_text n)
   \<and> 800 \<le> length (extract_main_text article_env containers_page ''<html>story</html>'')
   \<and> soup_find ''article'' (content_tree body_page) = None
   \<and> extract_main_text article_env body_page ''<html>story</html>'' = ''One'' @ [NL] @ ''Two''
   \<and> soup_find ''body'' (content_tree empty_page) = None
   \<and> extract_main_text article_env empty_page ''<html>story</html>'' = []"
proof -
  let ?h = "''<html>story</html>''"
  have t: "trafilatura_extract engine_env ?h = Inr (Some '' Engine  text '')" by code_simp
  have tn: "normalize_space '' Engine  text '' = ''Engine text''" by code_simp
  have e: "engine_yields_nothing article_env ?h" by code_simp
  have a: "soup_find ''article'' (content_tree article_page)
       = Some (Element ''article'' []
           [Element ''p'' [] [Text '' First  paragraph. ''],
            Element ''p'' [] [Text ''Second paragraph.'']])"
    by code_simp
  have an: "normalized_text (Element ''article'' []
           [Element ''p'' [] [Text '' First  paragraph. ''],
            Element ''p'' [] [Text ''Second paragraph.'']])
      = ''First paragraph.'' @ [NL] @ ''Second paragraph.''"
    by code_simp
  have c1: "soup_find ''article'' (content_tree containers_page) = None" by code_simp
  have "list_ex (\<lambda>n. 800 \<le> length (normalized_text n)) (containers containers_page)"
    by code_simp
  then have c2: "\<exists>n \<in> set (containers containers_page). 800 \<le> length (normalized_text n)"
    by (simp add: list_ex_iff)
  have b1: "soup_find ''article'' (content_tree body_page) = None" by code_simp
  have "list_all (\<lambda>n. length (normalized_text n) < 800) (containers body_page)" by code_simp
  then have b2: "\<forall>n \<in> set (containers body_page). length (normalized_text n) < 800"
    by (simp add: list_all_iff)
  have b3: "soup_find ''body'' (content_tree body_page)
      = Some (Element ''body'' [] [Element ''div'' [] [Text '' One ''], Element ''p'' [] [Text ''Two'']])"
    by code_simp
  have bn: "normalized_text (Element ''body'' []
      [Element ''div'' [] [Text '' One ''], Element ''p'' [] [Text ''Two'']]) = ''One'' @ [NL] @ ''Two''"
    by code_simp
  have e1: "soup_find ''article'' (content_tree empty_page) = None" by code_simp
  have "list_all (\<lambda>n. length (normalized_text n) < 800) (containers empty_page)" by code_simp
  then have e2: "\<forall>n \<in> set (containers empty_page). length (normalized_text n) < 800"
    by (simp add: list_all_iff)
  have e3: "soup_find ''body'' (content_tree empty_page) = None" by code_simp
  from extract_main_text_chain[of engine_env ?h article_page] t tn
  have r0: "extract_main_text engine_env article_page ?h = ''Engine text''" by simp
  from extract_main_text_chain[of article_env ?h article_page] e a an
  have r1: "extract_main_text article_env article_page ?h
      = ''First paragraph.'' @ [NL] @ ''Second paragraph.''"
    by simp
  from extract_main_text_chain[of article_env ?h containers_page] e c1 c2
  have r2: "(\<exists>n \<in> set (containers containers_page).
         extract_main_text article_env containers_page ?h = normalized_text n)
     \<and> 800 \<le> length (extract_main_text article_env containers_page ?h)"
    by blast
  from extract_main_text_chain[of article_env ?h body_page] e b1 b2 b3 bn
  have r3: "extract_main_text article_env body_page ?h = ''One'' @ [NL] @ ''Two''"
    by simp
  from extract_main_text_chain[of article_env ?h empty_page] e e1 e2 e3
  have r4: "extract_main_text article_env empty_page ?h = []" by blast
  from t r0 e a r1 c1 r2 b1 r3 e3 r4 show ?thesis by blast
qed

text \<open>
  Claim C6 as it is written fails: the chain is not first-non-empty-wins. An \<open>article\<close>
  element without text ends the chain with the empty string although a container of 900
  characters follows, and a result of the engine made of blanks ends it with the empty
  string although the page has an \<open>article\<close> element with text.
\<close>

theorem extract_main_text_not_first_non_empty:
  "extract_main_text article_env empty_article_page ''<html>story</html>'' = []
   \<and> first_non_empty (strategy_texts article_env empty_article_page ''<html>story</html>'')
       = replicate 900 CHR ''y''
   \<and> extract_main_text blank_engine_env article_page ''<html>story</html>'' = []
   \<and> first_non_empty (strategy_texts blank_engine_env article_page ''<html>story</html>'')
       = ''First paragraph.'' @ [NL] @ ''Second paragraph.''"
  by code_simp

end
